theory Spec2Isabelle
  imports Main "HOL-Library.Word" "HOL-Library.AList" "HOL-Library.List_Lexorder"
begin

unbundle bit_operations_syntax

section \<open>Data model\<close>

text \<open>
  Go's \<open>uint8\<close> and \<open>uint64\<close> are words whose arithmetic wraps; a \<open>[]byte\<close> is a
  list of bytes (the nil slice is the empty list).
\<close>

type_synonym uint8 = "8 word"
type_synonym uint64 = "64 word"
type_synonym bytes = "8 word list"

text \<open>
  Every error value the engine returns, and \<open>Panic\<close> for a Go run-time panic.
  \<open>ErrOther\<close> stands for the errors of collaborators (random source, JSON codec).
\<close>

datatype error =
    ErrNotFound
  | ErrUnfinalizedTree
  | ErrWorkingTreeNotInitialized
  | ErrInvalidIndex uint64 uint64
  | ErrNonCommutative
  | ErrLeafNotInTree uint64 uint64
  | ErrOther string
  | Panic string

text \<open>
  \<open>merkletypes.TreeInfo\<close>. \<open>LastSiblings\<close> is a Go map and may be nil: \<open>None\<close> is the nil
  map (the zero value, what a decoded record without the field leaves), \<open>Some ls\<close> an
  allocated one. Reading a nil map gives the zero value; assigning to it panics.
\<close>

record TreeInfo =
  Index :: uint64
  StartLeafIndex :: uint64
  LeafCount :: uint64
  LastSiblings :: "(uint8 \<rightharpoonup> bytes) option"
  Done :: bool

text \<open>\<open>merkletypes.FinalizedTreeInfo\<close>, with the fields \<open>FinalizeWorkingTree\<close> fills.\<close>

record FinalizedTreeInfo =
  TreeIndex :: uint64
  TreeHeight :: uint8
  Root :: bytes
  FStartLeafIndex :: uint64
  FLeafCount :: uint64
  ExtraData :: bytes

text \<open>
  Modelled from the spec: the package \<open>merkletypes\<close> and the JSON encoding of its two
  records are not part of the sources at hand. They are parameters of the engine: the
  constant \<open>EmptyRootHash\<close>, and \<open>json.Marshal\<close> / \<open>json.Unmarshal\<close> at the two record
  types. \<open>json.Unmarshal\<close> into a fresh \<open>TreeInfo\<close> yields the value decoded so far
  together with the error, if any.
\<close>

record merkletypes =
  EmptyRootHash :: bytes
  marshalTreeInfo :: "TreeInfo \<Rightarrow> error + bytes"
  unmarshalTreeInfo :: "bytes \<Rightarrow> TreeInfo \<times> error option"
  marshalFinalizedTreeInfo :: "FinalizedTreeInfo \<Rightarrow> error + bytes"
  unmarshalFinalizedTreeInfo :: "bytes \<Rightarrow> error + FinalizedTreeInfo"

section \<open>Key schema\<close>

definition strBytes :: "string \<Rightarrow> bytes" where
  "strBytes s = map (\<lambda>c. of_nat (of_char c)) s"

text \<open>
  Modelled from the spec: \<open>dbtypes.FromUint64Key\<close> and \<open>dbtypes.ToUint64Key\<close>, the 8-byte
  big-endian encoding of an integer key component and its inverse.
\<close>

definition FromUint64Key :: "uint64 \<Rightarrow> bytes" where
  "FromUint64Key v = map (\<lambda>i. ucast (drop_bit (8 * i) v)) [7, 6, 5, 4, 3, 2, 1, 0]"

definition ToUint64Key :: "bytes \<Rightarrow> uint64" where
  "ToUint64Key bs = fold (\<lambda>b acc. push_bit 8 acc OR ucast b) bs 0"

text \<open>
  Modelled from the spec: the key prefixes and key layouts of \<open>merkletypes\<close>:
  \<open>"working_tree/" \<parallel> version\<close>, \<open>"finalized_tree/" \<parallel> startLeafIndex\<close> and
  \<open>"node/" \<parallel> treeIndex \<parallel> height \<parallel> localNodeIndex\<close>.
\<close>

definition WorkingTreeKey :: bytes where
  "WorkingTreeKey = strBytes ''working_tree/''"

definition FinalizedTreeKey :: bytes where
  "FinalizedTreeKey = strBytes ''finalized_tree/''"

definition NodeKey :: bytes where
  "NodeKey = strBytes ''node/''"

definition PrefixedWorkingTreeKey :: "uint64 \<Rightarrow> bytes" where
  "PrefixedWorkingTreeKey version = WorkingTreeKey @ FromUint64Key version"

definition PrefixedFinalizedTreeKey :: "uint64 \<Rightarrow> bytes" where
  "PrefixedFinalizedTreeKey startLeafIndex = FinalizedTreeKey @ FromUint64Key startLeafIndex"

definition PrefixedNodeKey :: "uint64 \<Rightarrow> uint8 \<Rightarrow> uint64 \<Rightarrow> bytes" where
  "PrefixedNodeKey treeIndex height nodeIndex =
     NodeKey @ FromUint64Key treeIndex @ [height] @ FromUint64Key nodeIndex"

definition FinalizedTreeInfo_Key :: "FinalizedTreeInfo \<Rightarrow> bytes" where
  "FinalizedTreeInfo_Key info = PrefixedFinalizedTreeKey (FStartLeafIndex info)"

section \<open>Key-value store\<close>

text \<open>
  Modelled from the spec: the store behind \<open>types.DB\<close> is not part of the sources at
  hand. It is an in-memory table of the keys inside the store's own global prefix.
  \<open>Get\<close> answers \<open>ErrNotFound\<close> for an absent key; \<open>Set\<close> and \<open>Delete\<close> have the
  fallible signature of the interface and succeed on this table. Prefixed iteration
  walks, in lexicographic key order, the entries present when it starts.
\<close>

record DB =
  dbPrefix :: bytes
  kvs :: "(bytes \<times> bytes) list"

definition hasPrefix :: "bytes \<Rightarrow> bytes \<Rightarrow> bool" where
  "hasPrefix p k = (take (length p) k = p)"

definition db_PrefixedKey :: "DB \<Rightarrow> bytes \<Rightarrow> bytes" where
  "db_PrefixedKey d k = dbPrefix d @ k"

definition db_Get :: "DB \<Rightarrow> bytes \<Rightarrow> error + bytes" where
  "db_Get d k = (case map_of (kvs d) k of None \<Rightarrow> Inl ErrNotFound | Some v \<Rightarrow> Inr v)"

definition db_Set :: "DB \<Rightarrow> bytes \<Rightarrow> bytes \<Rightarrow> error + DB" where
  "db_Set d k v = Inr (d\<lparr>kvs := AList.update k v (kvs d)\<rparr>)"

definition db_Delete :: "DB \<Rightarrow> bytes \<Rightarrow> error + DB" where
  "db_Delete d k = Inr (d\<lparr>kvs := AList.delete k (kvs d)\<rparr>)"

fun iterate :: "(bytes \<Rightarrow> bytes \<Rightarrow> DB \<Rightarrow> DB \<times> bool \<times> error option)
    \<Rightarrow> (bytes \<times> bytes) list \<Rightarrow> DB \<Rightarrow> DB \<times> error option" where
  "iterate cb [] d = (d, None)"
| "iterate cb ((k, v) # rest) d =
     (case cb k v d of
        (d', _, Some e) \<Rightarrow> (d', Some e)
      | (d', stop, None) \<Rightarrow> if stop then (d', None) else iterate cb rest d')"

definition db_PrefixedIterate :: "DB \<Rightarrow> bytes \<Rightarrow> bytes option
    \<Rightarrow> (bytes \<Rightarrow> bytes \<Rightarrow> DB \<Rightarrow> DB \<times> bool \<times> error option) \<Rightarrow> DB \<times> error option" where
  "db_PrefixedIterate d p start cb =
     iterate cb
       (sort_key fst
          (filter (\<lambda>kv. hasPrefix p (fst kv)
                     \<and> (case start of None \<Rightarrow> True | Some s \<Rightarrow> s \<le> fst kv)) (kvs d)))
       d"

definition db_SeekPrevInclusiveKey :: "DB \<Rightarrow> bytes \<Rightarrow> bytes \<Rightarrow> error + (bytes \<times> bytes)" where
  "db_SeekPrevInclusiveKey d p target =
     (case rev (sort_key fst (filter (\<lambda>kv. hasPrefix p (fst kv) \<and> fst kv \<le> target) (kvs d))) of
        [] \<Rightarrow> Inl ErrNotFound
      | kv # _ \<Rightarrow> Inr kv)"

section \<open>The Merkle engine\<close>

record Merkle =
  db :: DB
  workingTree :: "TreeInfo option"
  nodeGeneratorFn :: "bytes \<Rightarrow> bytes \<Rightarrow> bytes"

text \<open>
  \<open>validateNodeGeneratorFn\<close>: the two arguments \<open>r1\<close>, \<open>r2\<close> are the outcomes of the two
  calls of \<open>rand.Read\<close> on 32-byte buffers.
\<close>

definition validateNodeGeneratorFn ::
    "error + bytes \<Rightarrow> error + bytes \<Rightarrow> (bytes \<Rightarrow> bytes \<Rightarrow> bytes) \<Rightarrow> error option" where
  "validateNodeGeneratorFn r1 r2 fn =
     (case r1 of
        Inl e \<Rightarrow> Some e
      | Inr randInput1 \<Rightarrow>
          (case r2 of
             Inl e \<Rightarrow> Some e
           | Inr randInput2 \<Rightarrow>
               if fn randInput1 randInput2 \<noteq> fn randInput2 randInput1
               then Some ErrNonCommutative
               else None))"

definition NewMerkle ::
    "error + bytes \<Rightarrow> error + bytes \<Rightarrow> DB \<Rightarrow> (bytes \<Rightarrow> bytes \<Rightarrow> bytes) \<Rightarrow> error + Merkle" where
  "NewMerkle r1 r2 d fn =
     (case validateNodeGeneratorFn r1 r2 fn of
        Some e \<Rightarrow> Inl e
      | None \<Rightarrow> Inr \<lparr>db = d, workingTree = None, nodeGeneratorFn = fn\<rparr>)"

definition InitializeWorkingTree :: "Merkle \<Rightarrow> uint64 \<Rightarrow> uint64 \<Rightarrow> Merkle \<times> error option" where
  "InitializeWorkingTree m treeIndex startLeafIndex =
     (if treeIndex < 1 \<or> startLeafIndex < 1
      then (m, Some (ErrInvalidIndex treeIndex startLeafIndex))
      else (m\<lparr>workingTree := Some \<lparr>Index = treeIndex, StartLeafIndex = startLeafIndex,
                                   LeafCount = 0, LastSiblings = Some Map.empty,
                                   Done = False\<rparr>\<rparr>,
            None))"

subsection \<open>Height\<close>

text \<open>\<open>bits.Len64\<close>: the number of bits needed to write the value, 0 for 0.\<close>

fun bitlen :: "nat \<Rightarrow> nat" where
  "bitlen n = (if n = 0 then 0 else Suc (bitlen (n div 2)))"

declare bitlen.simps [simp del]

definition Len64 :: "uint64 \<Rightarrow> nat" where
  "Len64 x = bitlen (unat x)"

text \<open>\<open>types.MustIntToUint8\<close>: the conversion panics when the value does not fit.\<close>

definition MustIntToUint8 :: "nat \<Rightarrow> error + uint8" where
  "MustIntToUint8 v =
     (if v > 255 then Inl (Panic ''integer overflow'') else Inr (of_nat v))"

definition Height :: "Merkle \<Rightarrow> error + uint8" where
  "Height m =
     (case workingTree m of
        None \<Rightarrow> Inl ErrWorkingTreeNotInitialized
      | Some t \<Rightarrow>
          if LeafCount t \<le> 1 then Inr (ucast (LeafCount t))
          else MustIntToUint8 (Len64 (LeafCount t - 1)))"

definition GetWorkingTreeIndex :: "Merkle \<Rightarrow> error + uint64" where
  "GetWorkingTreeIndex m =
     (case workingTree m of
        None \<Rightarrow> Inl ErrWorkingTreeNotInitialized
      | Some t \<Rightarrow> Inr (Index t))"

subsection \<open>Nodes and insertion\<close>

definition saveNode :: "Merkle \<Rightarrow> uint8 \<Rightarrow> uint64 \<Rightarrow> bytes \<Rightarrow> Merkle \<times> error option" where
  "saveNode m height localNodeIndex data =
     (case GetWorkingTreeIndex m of
        Inl e \<Rightarrow> (m, Some e)
      | Inr workingTreeIndex \<Rightarrow>
          (case db_Set (db m) (PrefixedNodeKey workingTreeIndex height localNodeIndex) data of
             Inl e \<Rightarrow> (m, Some e)
           | Inr d \<Rightarrow> (m\<lparr>db := d\<rparr>, None)))"

definition getNode :: "Merkle \<Rightarrow> uint64 \<Rightarrow> uint8 \<Rightarrow> uint64 \<Rightarrow> error + bytes" where
  "getNode m treeIndex height localNodeIndex =
     db_Get (db m) (PrefixedNodeKey treeIndex height localNodeIndex)"

text \<open>
  Reading a Go map at an absent key, or reading a nil map, gives the zero value, the nil
  slice.
\<close>

definition lastSibling :: "TreeInfo \<Rightarrow> uint8 \<Rightarrow> bytes" where
  "lastSibling t height =
     (case LastSiblings t of
        None \<Rightarrow> []
      | Some ls \<Rightarrow> (case ls height of None \<Rightarrow> [] | Some s \<Rightarrow> s))"

text \<open>
  The loop of \<open>InsertLeaf\<close>: it ends at the first even \<open>localNodeIndex\<close>, with the
  error of \<open>saveNode\<close>, or with the panic of the assignment
  \<open>LastSiblings[height] = data\<close> when the map is nil; the node is saved by then.
\<close>

function insertLoop :: "Merkle \<Rightarrow> uint8 \<Rightarrow> uint64 \<Rightarrow> bytes \<Rightarrow> Merkle \<times> error option" where
  "insertLoop m height localNodeIndex data =
     (case saveNode m height localNodeIndex data of
        (m1, Some e) \<Rightarrow> (m1, Some e)
      | (m1, None) \<Rightarrow>
          (case workingTree m1 of
             None \<Rightarrow> (m1, Some (Panic ''nil pointer dereference''))
           | Some t \<Rightarrow>
               let sibling = lastSibling t height
               in (case LastSiblings t of
                     None \<Rightarrow> (m1, Some (Panic ''assignment to entry in nil map''))
                   | Some ls \<Rightarrow>
                       let m2 = m1\<lparr>workingTree :=
                                     Some (t\<lparr>LastSiblings := Some (ls(height \<mapsto> data))\<rparr>)\<rparr>
                       in if localNodeIndex mod 2 = 0 then (m2, None)
                          else insertLoop m2 (height + 1) (localNodeIndex div 2)
                                 (nodeGeneratorFn m2 sibling data))))"
  by pat_completeness auto
termination
proof (relation "measure (\<lambda>(m, height, localNodeIndex, data). unat localNodeIndex)")
  show "wf (measure (\<lambda>(m, height, localNodeIndex, data). unat localNodeIndex))"
    by simp
next
  fix localNodeIndex :: uint64
  fix m :: Merkle and height :: uint8 and data :: bytes
  fix x m1 eo t sibling ls m2
  assume "localNodeIndex mod 2 \<noteq> 0"
  then have "localNodeIndex \<noteq> 0" by auto
  then have "unat localNodeIndex \<noteq> 0" by (simp add: unat_eq_0)
  then have "unat localNodeIndex div 2 < unat localNodeIndex" by simp
  then have "unat (localNodeIndex div 2) < unat localNodeIndex"
    by (simp add: unat_div)
  then show "((m2, height + 1, localNodeIndex div 2, nodeGeneratorFn m2 sibling data),
              (m, height, localNodeIndex, data))
             \<in> measure (\<lambda>(m, height, localNodeIndex, data). unat localNodeIndex)"
    by simp
qed

declare insertLoop.simps [simp del]

definition InsertLeaf :: "Merkle \<Rightarrow> bytes \<Rightarrow> Merkle \<times> error option" where
  "InsertLeaf m data =
     (case workingTree m of
        None \<Rightarrow> (m, Some ErrWorkingTreeNotInitialized)
      | Some t0 \<Rightarrow>
          (case insertLoop m 0 (LeafCount t0) data of
             (m1, Some e) \<Rightarrow> (m1, Some e)
           | (m1, None) \<Rightarrow>
               (case workingTree m1 of
                  None \<Rightarrow> (m1, Some (Panic ''nil pointer dereference''))
                | Some t \<Rightarrow> (m1\<lparr>workingTree := Some (t\<lparr>LeafCount := LeafCount t + 1\<rparr>)\<rparr>, None))))"

subsection \<open>Padding and finalization\<close>

text \<open>The loop \<open>for range numRestLeaves\<close> of \<open>fillLeaves\<close>, on the number of rounds left.\<close>

primrec insertRepeat :: "nat \<Rightarrow> Merkle \<Rightarrow> bytes \<Rightarrow> Merkle \<times> error option" where
  "insertRepeat 0 m lastLeaf = (m, None)"
| "insertRepeat (Suc n) m lastLeaf =
     (case InsertLeaf m lastLeaf of
        (m1, Some e) \<Rightarrow> (m1, Some e)
      | (m1, None) \<Rightarrow> insertRepeat n m1 lastLeaf)"

definition fillLeaves :: "Merkle \<Rightarrow> Merkle \<times> error option" where
  "fillLeaves m =
     (case workingTree m of
        None \<Rightarrow> (m, Some ErrWorkingTreeNotInitialized)
      | Some t \<Rightarrow>
          (case Height m of
             Inl e \<Rightarrow> (m, Some e)
           | Inr height \<Rightarrow>
               let numRestLeaves = push_bit (unat height) (1 :: uint64) - LeafCount t
               in if numRestLeaves = 0 then (m, None)
                  else
                    (case insertRepeat (unat numRestLeaves) m (lastSibling t 0) of
                       (m1, Some e) \<Rightarrow> (m1, Some e)
                     | (m1, None) \<Rightarrow>
                         (case workingTree m1 of
                            None \<Rightarrow> (m1, Some (Panic ''nil pointer dereference''))
                          | Some t1 \<Rightarrow>
                              (m1\<lparr>workingTree :=
                                     Some (t1\<lparr>LeafCount := LeafCount t1 - numRestLeaves\<rparr>)\<rparr>,
                               None)))))"

definition FinalizeWorkingTree ::
    "merkletypes \<Rightarrow> Merkle \<Rightarrow> bytes \<Rightarrow> Merkle \<times> (error + (bytes \<times> bytes) list \<times> bytes)" where
  "FinalizeWorkingTree c m extraData =
     (case workingTree m of
        None \<Rightarrow> (m, Inl ErrWorkingTreeNotInitialized)
      | Some t \<Rightarrow>
          let m1 = m\<lparr>workingTree := Some (t\<lparr>Done := True\<rparr>)\<rparr>
          in if LeafCount t = 0 then (m1, Inr ([], EmptyRootHash c))
             else
               (case fillLeaves m1 of
                  (m2, Some e) \<Rightarrow> (m2, Inl e)
                | (m2, None) \<Rightarrow>
                    (case Height m2 of
                       Inl e \<Rightarrow> (m2, Inl e)
                     | Inr height \<Rightarrow>
                         (case workingTree m2 of
                            None \<Rightarrow> (m2, Inl (Panic ''nil pointer dereference''))
                          | Some t2 \<Rightarrow>
                              let treeRootHash = lastSibling t2 height;
                                  finalizedTreeInfo =
                                    \<lparr>TreeIndex = Index t2, TreeHeight = height,
                                     Root = treeRootHash,
                                     FStartLeafIndex = StartLeafIndex t2,
                                     FLeafCount = LeafCount t2, ExtraData = extraData\<rparr>
                              in (case marshalFinalizedTreeInfo c finalizedTreeInfo of
                                    Inl e \<Rightarrow> (m2, Inl e)
                                  | Inr data \<Rightarrow>
                                      (m2, Inr ([(db_PrefixedKey (db m2)
                                                    (FinalizedTreeInfo_Key finalizedTreeInfo),
                                                  data)],
                                                treeRootHash)))))))"

subsection \<open>Rollback\<close>

text \<open>
  The callback of both rollback operations: \<open>key[len(key)-8:]\<close> panics on a key shorter
  than 8 bytes; a key whose trailing integer reaches the cutoff is deleted.
\<close>

definition deleteFrom :: "uint64 \<Rightarrow> bytes \<Rightarrow> bytes \<Rightarrow> DB \<Rightarrow> DB \<times> bool \<times> error option" where
  "deleteFrom cutoff key value d =
     (if length key < 8 then (d, True, Some (Panic ''slice bounds out of range''))
      else if ToUint64Key (drop (length key - 8) key) \<ge> cutoff
      then (case db_Delete d key of
              Inl e \<Rightarrow> (d, True, Some e)
            | Inr d' \<Rightarrow> (d', False, None))
      else (d, False, None))"

definition DeleteFutureFinalizedTrees :: "Merkle \<Rightarrow> uint64 \<Rightarrow> Merkle \<times> error option" where
  "DeleteFutureFinalizedTrees m fromSequence =
     (case db_PrefixedIterate (db m) FinalizedTreeKey None (deleteFrom fromSequence) of
        (d, err) \<Rightarrow> (m\<lparr>db := d\<rparr>, err))"

definition DeleteFutureWorkingTrees :: "Merkle \<Rightarrow> uint64 \<Rightarrow> Merkle \<times> error option" where
  "DeleteFutureWorkingTrees m fromVersion =
     (case db_PrefixedIterate (db m) WorkingTreeKey None (deleteFrom fromVersion) of
        (d, err) \<Rightarrow> (m\<lparr>db := d\<rparr>, err))"

subsection \<open>Snapshots\<close>

definition LoadWorkingTree :: "merkletypes \<Rightarrow> Merkle \<Rightarrow> uint64 \<Rightarrow> Merkle \<times> error option" where
  "LoadWorkingTree c m version =
     (case db_Get (db m) (PrefixedWorkingTreeKey version) of
        Inl e \<Rightarrow> (m, Some e)
      | Inr data \<Rightarrow>
          (case unmarshalTreeInfo c data of
             (loaded, err) \<Rightarrow>
               let m1 = m\<lparr>workingTree := Some loaded\<rparr>
               in (case err of
                     Some e \<Rightarrow> (m1, Some e)
                   | None \<Rightarrow>
                       if Done loaded
                       then InitializeWorkingTree m1 (Index loaded + 1)
                              (StartLeafIndex loaded + LeafCount loaded)
                       else (m1, None))))"

definition SaveWorkingTree :: "merkletypes \<Rightarrow> Merkle \<Rightarrow> uint64 \<Rightarrow> Merkle \<times> error option" where
  "SaveWorkingTree c m version =
     (case workingTree m of
        None \<Rightarrow> (m, Some ErrWorkingTreeNotInitialized)
      | Some t \<Rightarrow>
          (case marshalTreeInfo c t of
             Inl e \<Rightarrow> (m, Some e)
           | Inr data \<Rightarrow>
               (case db_Set (db m) (PrefixedWorkingTreeKey version) data of
                  Inl e \<Rightarrow> (m, Some e)
                | Inr d \<Rightarrow> (m\<lparr>db := d\<rparr>, None))))"

subsection \<open>Proofs\<close>

text \<open>The loop of \<open>GetProofs\<close>, from \<open>height\<close> up to the height of the located tree.\<close>

function proofLoop ::
    "Merkle \<Rightarrow> FinalizedTreeInfo \<Rightarrow> uint8 \<Rightarrow> uint64 \<Rightarrow> bytes list \<Rightarrow> error + bytes list" where
  "proofLoop m treeInfo height localNodeIndex proofs =
     (if height < TreeHeight treeInfo
      then (case getNode m (TreeIndex treeInfo) height (localNodeIndex XOR 1) of
              Inl e \<Rightarrow> Inl e
            | Inr sibling \<Rightarrow>
                proofLoop m treeInfo (height + 1) (localNodeIndex div 2) (proofs @ [sibling]))
      else Inr proofs)"
  by pat_completeness auto
termination
proof (relation "measure (\<lambda>(m, treeInfo, height, localNodeIndex, proofs).
                            unat (TreeHeight treeInfo) - unat height)")
  show "wf (measure (\<lambda>(m, treeInfo, height, localNodeIndex, proofs).
                       unat (TreeHeight treeInfo) - unat height))"
    by simp
next
  fix m :: Merkle and treeInfo :: FinalizedTreeInfo and height :: uint8
  fix localNodeIndex :: uint64 and proofs :: "bytes list" and sibling :: bytes
  assume lt: "height < TreeHeight treeInfo"
  then have "unat height < unat (TreeHeight treeInfo)"
    by (simp add: word_less_nat_alt)
  moreover have "unat (TreeHeight treeInfo) < 2 ^ 8"
    using unsigned_less [of "TreeHeight treeInfo", where 'a=nat] by simp
  ultimately have "unat height + 1 < 2 ^ 8 \<and> unat height < unat (TreeHeight treeInfo)"
    by simp
  then have "unat (height + 1) = unat height + 1 \<and> unat height < unat (TreeHeight treeInfo)"
    by (simp add: unat_word_ariths)
  then have "unat (TreeHeight treeInfo) - unat (height + 1) < unat (TreeHeight treeInfo) - unat height"
    by arith
  then show "((m, treeInfo, height + 1, localNodeIndex div 2, proofs @ [sibling]),
                    (m, treeInfo, height, localNodeIndex, proofs))
                   \<in> measure (\<lambda>(m, treeInfo, height, localNodeIndex, proofs).
                                unat (TreeHeight treeInfo) - unat height)"
    by simp
qed

declare proofLoop.simps [simp del]

definition GetProofs ::
    "merkletypes \<Rightarrow> Merkle \<Rightarrow> uint64 \<Rightarrow> error + (bytes list \<times> uint64 \<times> bytes \<times> bytes)" where
  "GetProofs c m leafIndex =
     (case db_SeekPrevInclusiveKey (db m) FinalizedTreeKey (PrefixedFinalizedTreeKey leafIndex) of
        Inl e \<Rightarrow> if e = ErrNotFound then Inl ErrUnfinalizedTree else Inl e
      | Inr (key, value) \<Rightarrow>
          (case unmarshalFinalizedTreeInfo c value of
             Inl e \<Rightarrow> Inl e
           | Inr treeInfo \<Rightarrow>
               if leafIndex < FStartLeafIndex treeInfo
               then Inl (ErrLeafNotInTree leafIndex (TreeIndex treeInfo))
               else if leafIndex - FStartLeafIndex treeInfo \<ge> FLeafCount treeInfo
               then Inl ErrUnfinalizedTree
               else
                 (case proofLoop m treeInfo 0 (leafIndex - FStartLeafIndex treeInfo) [] of
                    Inl e \<Rightarrow> Inl e
                  | Inr proofs \<Rightarrow>
                      Inr (proofs, TreeIndex treeInfo, Root treeInfo, ExtraData treeInfo))))"

section \<open>Notions of the specification\<close>

text \<open>
  The bit length of a number as the specification means it, and the height law as the
  specification words it; \<open>bitlen\<close> above is the function the code calls.
\<close>

definition bit_length :: "nat \<Rightarrow> nat" where
  "bit_length n = (LEAST k. n < 2 ^ k)"

definition spec_Height :: "nat \<Rightarrow> nat" where
  "spec_Height leafCount =
     (if leafCount = 0 then 0 else if leafCount = 1 then 1 else bit_length (leafCount - 1))"

text \<open>
  The store after a rollback as the specification describes it: every entry under the
  prefix whose trailing 8-byte big-endian integer reaches the cutoff is gone, every other
  entry is kept.
\<close>

definition trailingUint64 :: "bytes \<Rightarrow> uint64" where
  "trailingUint64 key = ToUint64Key (drop (length key - 8) key)"

definition withoutFuture :: "bytes \<Rightarrow> uint64 \<Rightarrow> DB \<Rightarrow> DB" where
  "withoutFuture p cutoff d =
     d\<lparr>kvs := filter (\<lambda>kv. \<not> (hasPrefix p (fst kv) \<and> cutoff \<le> trailingUint64 (fst kv)))
                     (kvs d)\<rparr>"

text \<open>
  The number of trailing one bits of a number: the insertion loop climbs one level for
  each of them. \<open>frontierLevels\<close> is the frontier-size invariant in its set form: the
  defined levels of \<open>LastSiblings\<close> (none for a nil map) are exactly those below the bit
  length of \<open>LeafCount\<close>. \<open>frontierSize\<close> and \<open>leafCountBits\<close> are its two sides as
  numbers.
\<close>

fun trailingOnes :: "nat \<Rightarrow> nat" where
  "trailingOnes n = (if n mod 2 = 0 then 0 else Suc (trailingOnes (n div 2)))"

declare trailingOnes.simps [simp del]





text \<open>
  What one insertion does, as the specification tells it: the leaf is placed at level 0,
  and while the local index is odd the node is paired with the last sibling of its level
  and the parent placed one level up. \<open>pathNode fn sib h d j\<close> is the node placed \<open>j\<close>
  levels above the level \<open>h\<close> where \<open>d\<close> was placed, \<open>sib\<close> giving the last siblings
  before the insertion.
\<close>

primrec pathNode :: "(bytes \<Rightarrow> bytes \<Rightarrow> bytes) \<Rightarrow> (uint8 \<Rightarrow> bytes) \<Rightarrow> uint8 \<Rightarrow> bytes \<Rightarrow> nat \<Rightarrow> bytes"
  where
  "pathNode fn sib h d 0 = d"
| "pathNode fn sib h d (Suc j) = fn (sib (h + of_nat j)) (pathNode fn sib h d j)"

section \<open>Example collaborators\<close>

text \<open>
  Concrete collaborators for the worked examples: a fixed-layout codec for the two records
  (counters big-endian, one flag byte, one byte telling a nil map from an allocated one,
  the frontier as level, length and bytes per entry), two pairing functions and an empty
  store.
\<close>

definition encodeFrontier :: "(uint8 \<rightharpoonup> bytes) \<Rightarrow> bytes" where
  "encodeFrontier ls =
     concat (map (\<lambda>h. case ls h of None \<Rightarrow> [] | Some d \<Rightarrow> [h, of_nat (length d)] @ d)
                 (map of_nat [0..<65]))"

fun decodeFrontier :: "bytes \<Rightarrow> (uint8 \<rightharpoonup> bytes) \<times> error option" where
  "decodeFrontier [] = (Map.empty, None)"
| "decodeFrontier [h] = (Map.empty, Some (ErrOther ''unexpected end of input''))"
| "decodeFrontier (h # n # rest) =
     (if length rest < unat n then (Map.empty, Some (ErrOther ''unexpected end of input''))
      else (case decodeFrontier (drop (unat n) rest) of
              (ls, err) \<Rightarrow> (ls(h \<mapsto> take (unat n) rest), err)))"

definition encodeTreeInfo :: "TreeInfo \<Rightarrow> error + bytes" where
  "encodeTreeInfo t =
     Inr (FromUint64Key (Index t) @ FromUint64Key (StartLeafIndex t)
          @ FromUint64Key (LeafCount t) @ [if Done t then 1 else 0]
          @ (case LastSiblings t of None \<Rightarrow> [0] | Some ls \<Rightarrow> 1 # encodeFrontier ls))"

definition decodeTreeInfo :: "bytes \<Rightarrow> TreeInfo \<times> error option" where
  "decodeTreeInfo bs =
     (if length bs < 26
      then (\<lparr>Index = 0, StartLeafIndex = 0, LeafCount = 0, LastSiblings = None,
             Done = False\<rparr>,
            Some (ErrOther ''unexpected end of input''))
      else if bs ! 25 = 0
      then (\<lparr>Index = ToUint64Key (take 8 bs),
             StartLeafIndex = ToUint64Key (take 8 (drop 8 bs)),
             LeafCount = ToUint64Key (take 8 (drop 16 bs)),
             LastSiblings = None,
             Done = (bs ! 24 \<noteq> 0)\<rparr>,
            None)
      else (case decodeFrontier (drop 26 bs) of
              (ls, err) \<Rightarrow>
                (\<lparr>Index = ToUint64Key (take 8 bs),
                  StartLeafIndex = ToUint64Key (take 8 (drop 8 bs)),
                  LeafCount = ToUint64Key (take 8 (drop 16 bs)),
                  LastSiblings = Some ls,
                  Done = (bs ! 24 \<noteq> 0)\<rparr>,
                 err)))"

definition finalizedTreeInfoBytes :: "FinalizedTreeInfo \<Rightarrow> bytes" where
  "finalizedTreeInfoBytes i =
     FromUint64Key (TreeIndex i) @ [TreeHeight i] @ FromUint64Key (FStartLeafIndex i)
     @ FromUint64Key (FLeafCount i) @ [of_nat (length (Root i))] @ Root i @ ExtraData i"

definition encodeFinalizedTreeInfo :: "FinalizedTreeInfo \<Rightarrow> error + bytes" where
  "encodeFinalizedTreeInfo i = Inr (finalizedTreeInfoBytes i)"

definition decodeFinalizedTreeInfo :: "bytes \<Rightarrow> error + FinalizedTreeInfo" where
  "decodeFinalizedTreeInfo bs =
     (if length bs < 26 \<or> length bs < 26 + unat (bs ! 25)
      then Inl (ErrOther ''unexpected end of input'')
      else Inr \<lparr>TreeIndex = ToUint64Key (take 8 bs),
                TreeHeight = bs ! 8,
                Root = take (unat (bs ! 25)) (drop 26 bs),
                FStartLeafIndex = ToUint64Key (take 8 (drop 9 bs)),
                FLeafCount = ToUint64Key (take 8 (drop 17 bs)),
                ExtraData = drop (26 + unat (bs ! 25)) bs\<rparr>)"

definition fixedCodec :: merkletypes where
  "fixedCodec =
     \<lparr>EmptyRootHash = replicate 32 0,
      marshalTreeInfo = encodeTreeInfo,
      unmarshalTreeInfo = decodeTreeInfo,
      marshalFinalizedTreeInfo = encodeFinalizedTreeInfo,
      unmarshalFinalizedTreeInfo = decodeFinalizedTreeInfo\<rparr>"

text \<open>
  \<open>xorPair\<close> is commutative on inputs of equal length; \<open>skewPair\<close> differs from it at
  one ordered pair of 32-byte inputs only.
\<close>

definition xorPair :: "bytes \<Rightarrow> bytes \<Rightarrow> bytes" where
  "xorPair a b = map (\<lambda>(x, y). x XOR y) (zip a b)"

definition skewPair :: "bytes \<Rightarrow> bytes \<Rightarrow> bytes" where
  "skewPair a b =
     (if a = replicate 32 0 \<and> b = replicate 32 255 then replicate 32 1 else xorPair a b)"

definition emptyDB :: DB where
  "emptyDB = \<lparr>dbPrefix = strBytes ''merkle/'', kvs = []\<rparr>"

definition engine0 :: Merkle where
  "engine0 = \<lparr>db = emptyDB, workingTree = None, nodeGeneratorFn = xorPair\<rparr>"


definition tree1Engine :: Merkle where
  "tree1Engine =
     fst (SaveWorkingTree fixedCodec
            (fst (FinalizeWorkingTree fixedCodec
                    (fst (InsertLeaf (fst (InsertLeaf (fst (InitializeWorkingTree engine0 1 1))
                                             [1, 1])) [2, 2])) [])) 100)"

definition truncatedEngine :: Merkle where
  "truncatedEngine =
     \<lparr>db = \<lparr>dbPrefix = [], kvs = [(PrefixedWorkingTreeKey 7, FromUint64Key 3 @ [0, 0])]\<rparr>,
      workingTree = Some \<lparr>Index = 2, StartLeafIndex = 9, LeafCount = 0,
                            LastSiblings = Some Map.empty, Done = False\<rparr>,
      nodeGeneratorFn = xorPair\<rparr>"

text \<open>
  A store holding a well-formed snapshot of three leaves whose record carries no frontier
  map; the engine that has loaded it; that engine after its finalization was attempted;
  and a tree holding the greatest leaf count, with its 64 levels defined.
\<close>

definition bareRecordEngine :: Merkle where
  "bareRecordEngine =
     engine0\<lparr>db := emptyDB\<lparr>kvs :=
       [(PrefixedWorkingTreeKey 7,
         [0, 0, 0, 0, 0, 0, 0, 1, 0, 0, 0, 0, 0, 0, 0, 1, 0, 0, 0, 0, 0, 0, 0, 3,
          0, 0])]\<rparr>\<rparr>"

definition nilMapEngine :: Merkle where
  "nilMapEngine = fst (LoadWorkingTree fixedCodec bareRecordEngine 7)"

definition panickedEngine :: Merkle where
  "panickedEngine = fst (FinalizeWorkingTree fixedCodec nilMapEngine [])"


text \<open>
  The caller's commit of the pending batch of \<open>FinalizeWorkingTree\<close>: the batch keys carry
  the store's global prefix, the table holds the keys inside it.
\<close>

definition commitBatch :: "Merkle \<Rightarrow> (bytes \<times> bytes) list \<Rightarrow> Merkle" where
  "commitBatch m batch =
     m\<lparr>db := (db m)\<lparr>kvs := fold (\<lambda>(k, v). AList.update (drop (length (dbPrefix (db m))) k) v)
                                 batch (kvs (db m))\<rparr>\<rparr>"

definition pendingKVs :: "error + (bytes \<times> bytes) list \<times> bytes \<Rightarrow> (bytes \<times> bytes) list" where
  "pendingKVs r = (case r of Inl e \<Rightarrow> [] | Inr (batch, root) \<Rightarrow> batch)"

text \<open>
  Three leaves inserted into tree 1; the same tree finalized and its record committed; and
  a store whose record under start index 1 claims start index 5.
\<close>

definition threeLeafEngine :: Merkle where
  "threeLeafEngine =
     fst (InsertLeaf (fst (InsertLeaf (fst (InsertLeaf (fst (InitializeWorkingTree engine0 1 1))
                                              [1])) [2])) [4])"

definition provingEngine :: Merkle where
  "provingEngine =
     commitBatch (fst (FinalizeWorkingTree fixedCodec threeLeafEngine [101]))
       (pendingKVs (snd (FinalizeWorkingTree fixedCodec threeLeafEngine [101])))"

definition misfiledEngine :: Merkle where
  "misfiledEngine =
     engine0\<lparr>db := emptyDB\<lparr>kvs :=
       [(PrefixedFinalizedTreeKey 1,
         [0, 0, 0, 0, 0, 0, 0, 1, 1, 0, 0, 0, 0, 0, 0, 0, 5, 0, 0, 0, 0, 0, 0, 0, 2, 1, 7])]\<rparr>\<rparr>"


section \<open>Height\<close>

lemma bitlen_upper: "n < 2 ^ bitlen n"
proof (induction n rule: bitlen.induct)
  case (1 n)
  show ?case
  proof (cases "n = 0")
    case True
    then show ?thesis by (simp add: bitlen.simps)
  next
    case False
    with 1 have "n div 2 < 2 ^ bitlen (n div 2)" by simp
    then have "n < 2 * 2 ^ bitlen (n div 2)" by arith
    then show ?thesis using False by (subst bitlen.simps) simp
  qed
qed

lemma bitlen_least: "n < 2 ^ k \<Longrightarrow> bitlen n \<le> k"
proof (induction n arbitrary: k rule: bitlen.induct)
  case (1 n)
  show ?case
  proof (cases "n = 0")
    case True
    then show ?thesis by (simp add: bitlen.simps)
  next
    case False
    then obtain j where k: "k = Suc j" using "1.prems" by (cases k) auto
    with "1.prems" have "n div 2 < 2 ^ j" by auto
    with 1 False have "bitlen (n div 2) \<le> j" by simp
    then show ?thesis using False k by (subst bitlen.simps) simp
  qed
qed

lemma bitlen_bit_length: "bitlen n = bit_length n"
  unfolding bit_length_def
  by (rule Least_equality [symmetric]) (auto intro: bitlen_upper bitlen_least)


lemma Len64_le: "Len64 x \<le> 64"
proof -
  have "unat x < 2 ^ 64" using unsigned_less [of x, where 'a=nat] by simp
  then show ?thesis unfolding Len64_def by (rule bitlen_least)
qed

lemma MustIntToUint8_Len64: "MustIntToUint8 (Len64 x) = Inr (of_nat (Len64 x))"
  using Len64_le [of x] by (simp add: MustIntToUint8_def)

lemma unat_of_nat_Len64: "unat (of_nat (Len64 x) :: uint8) = Len64 x"
  using Len64_le [of x] by (simp add: unat_of_nat)

text \<open>
  Claim C2. \<open>Height\<close> answers \<open>ErrWorkingTreeNotInitialized\<close> when there is no working
  tree; otherwise it returns, without truncation, 0 for no leaf, 1 for one leaf, and the
  bit length of \<open>LeafCount - 1\<close> for more.
\<close>

theorem Height_spec:
  "map_sum id unat (Height m) =
     (case workingTree m of
        None \<Rightarrow> Inl ErrWorkingTreeNotInitialized
      | Some t \<Rightarrow> Inr (spec_Height (unat (LeafCount t))))"
proof (cases "workingTree m")
  case None
  then show ?thesis by (simp add: Height_def)
next
  case (Some t)
  consider "LeafCount t = 0" | "LeafCount t = 1" | "1 < LeafCount t"
    by (metis word_less_1 linorder_neqE_linordered_idom not_less_iff_gr_or_eq word_coorder.not_eq_extremum)
  then show ?thesis
  proof cases
    case 1
    then show ?thesis using Some by (simp add: Height_def spec_Height_def)
  next
    case 2
    then show ?thesis using Some by (simp add: Height_def spec_Height_def)
  next
    case 3
    then have u: "1 < unat (LeafCount t)" by (simp add: word_less_nat_alt)
    then have "unat (LeafCount t - 1) = unat (LeafCount t) - 1"
      by (simp add: unat_sub word_le_nat_alt)
    moreover have "\<not> LeafCount t \<le> 1" using 3 by simp
    then have "Height m = Inr (of_nat (Len64 (LeafCount t - 1)))"
      using Some by (simp add: Height_def MustIntToUint8_Len64)
    then have "map_sum id unat (Height m) = Inr (Len64 (LeafCount t - 1))"
      by (simp add: unat_of_nat_Len64)
    ultimately show ?thesis using Some u
      by (simp add: spec_Height_def Len64_def bitlen_bit_length)
  qed
qed

section \<open>Evaluation of the examples\<close>

lemmas example_defs =
  engine0_def emptyDB_def fixedCodec_def encodeTreeInfo_def encodeFrontier_def
  decodeTreeInfo_def finalizedTreeInfoBytes_def encodeFinalizedTreeInfo_def
  decodeFinalizedTreeInfo_def
  PrefixedWorkingTreeKey_def PrefixedFinalizedTreeKey_def PrefixedNodeKey_def
  WorkingTreeKey_def FinalizedTreeKey_def NodeKey_def strBytes_def
  FromUint64Key_def ToUint64Key_def db_Set_def db_Get_def

lemma bitlen_0: "bitlen 0 = 0"
  by (simp add: bitlen.simps)

lemma bitlen_pos: "0 < n \<Longrightarrow> bitlen n = Suc (bitlen (n div 2))"
  by (subst bitlen.simps) simp

lemmas engine_defs =
  InitializeWorkingTree_def InsertLeaf_def insertLoop.simps saveNode_def GetWorkingTreeIndex_def
  lastSibling_def FinalizeWorkingTree_def fillLeaves_def Height_def MustIntToUint8_def
  SaveWorkingTree_def db_PrefixedKey_def FinalizedTreeInfo_Key_def Let_def xorPair_def
  Len64_def bitlen_0 bitlen_pos word_le_nat_alt

lemma insertRepeat_Suc_eval:
  "insertRepeat (numeral k) m lastLeaf =
     (case InsertLeaf m lastLeaf of
        (m1, Some e) \<Rightarrow> (m1, Some e)
      | (m1, None) \<Rightarrow> insertRepeat (pred_numeral k) m1 lastLeaf)"
  by (simp add: numeral_eq_Suc)


lemmas store_defs = db_SeekPrevInclusiveKey_def hasPrefix_def getNode_def

lemma provingEngine_kvs:
  "kvs (db provingEngine) =
     [(PrefixedNodeKey 1 0 0, [1]), (PrefixedNodeKey 1 0 1, [2]), (PrefixedNodeKey 1 1 0, [3]),
      (PrefixedNodeKey 1 0 2, [4]), (PrefixedNodeKey 1 0 3, [4]), (PrefixedNodeKey 1 1 1, [0]),
      (PrefixedNodeKey 1 2 0, [3]),
      (PrefixedFinalizedTreeKey 1,
       [0, 0, 0, 0, 0, 0, 0, 1, 2, 0, 0, 0, 0, 0, 0, 0, 1, 0, 0, 0, 0, 0, 0, 0, 3, 1, 3, 101])]"
  by (simp add: provingEngine_def threeLeafEngine_def commitBatch_def pendingKVs_def
      engine_defs example_defs insertRepeat_Suc_eval)

lemma provingEngine_seek:
  "db_SeekPrevInclusiveKey (db provingEngine) FinalizedTreeKey (PrefixedFinalizedTreeKey 4)
     = Inr (PrefixedFinalizedTreeKey 1,
       [0, 0, 0, 0, 0, 0, 0, 1, 2, 0, 0, 0, 0, 0, 0, 0, 1, 0, 0, 0, 0, 0, 0, 0, 3, 1, 3, 101])"
  "db_SeekPrevInclusiveKey (db provingEngine) FinalizedTreeKey (PrefixedFinalizedTreeKey 2)
     = Inr (PrefixedFinalizedTreeKey 1,
       [0, 0, 0, 0, 0, 0, 0, 1, 2, 0, 0, 0, 0, 0, 0, 0, 1, 0, 0, 0, 0, 0, 0, 0, 3, 1, 3, 101])"
  by (simp_all add: provingEngine_kvs store_defs example_defs)

lemma provingEngine_record:
  "unmarshalFinalizedTreeInfo fixedCodec
     [0, 0, 0, 0, 0, 0, 0, 1, 2, 0, 0, 0, 0, 0, 0, 0, 1, 0, 0, 0, 0, 0, 0, 0, 3, 1, 3, 101]
   = Inr \<lparr>TreeIndex = 1, TreeHeight = 2, Root = [3], FStartLeafIndex = 1, FLeafCount = 3,
           ExtraData = [101]\<rparr>"
  by (simp add: example_defs)

section \<open>Construction\<close>

text \<open>
  Claim C6, as amended. Construction tests the pairing function at the one pair of random
  buffers it draws: it fails with \<open>ErrNonCommutative\<close> exactly when the function is not
  commutative at that pair, and otherwise yields the engine.
\<close>

theorem NewMerkle_sample:
  "NewMerkle (Inr x) (Inr y) d fn =
     (if fn x y \<noteq> fn y x then Inl ErrNonCommutative
      else Inr \<lparr>db = d, workingTree = None, nodeGeneratorFn = fn\<rparr>)"
  by (simp add: NewMerkle_def validateNodeGeneratorFn_def)

text \<open>
  Claim C6, as stated, fails: \<open>skewPair\<close> is not commutative at one pair of 32-byte
  inputs, and construction succeeds when the random buffers are another pair.
\<close>

theorem NewMerkle_accepts_skewPair:
  "length (replicate 32 (0 :: 8 word)) = 32 \<and> length (replicate 32 (255 :: 8 word)) = 32
   \<and> skewPair (replicate 32 0) (replicate 32 255) \<noteq> skewPair (replicate 32 255) (replicate 32 0)
   \<and> NewMerkle (Inr (replicate 32 7)) (Inr (replicate 32 9)) emptyDB skewPair
       = Inr \<lparr>db = emptyDB, workingTree = None, nodeGeneratorFn = skewPair\<rparr>"
  by (simp add: NewMerkle_def validateNodeGeneratorFn_def skewPair_def xorPair_def)

section \<open>Loading a snapshot\<close>

text \<open>
  Claim C10. When the stored record fails to decode, \<open>LoadWorkingTree\<close> has already
  replaced the working tree by the value decoded so far when it returns the error.
\<close>

theorem LoadWorkingTree_failed_decode:
  assumes "db_Get (db m) (PrefixedWorkingTreeKey version) = Inr data"
    and "unmarshalTreeInfo c data = (partial, Some e)"
  shows "LoadWorkingTree c m version = (m\<lparr>workingTree := Some partial\<rparr>, Some e)"
  using assms by (simp add: LoadWorkingTree_def)

theorem LoadWorkingTree_failed_decode_witness:
  "LoadWorkingTree fixedCodec truncatedEngine 7
     = (truncatedEngine\<lparr>workingTree :=
          Some \<lparr>Index = 0, StartLeafIndex = 0, LeafCount = 0, LastSiblings = None,
                 Done = False\<rparr>\<rparr>,
        Some (ErrOther ''unexpected end of input''))
   \<and> map_option Index (workingTree truncatedEngine) = Some 2
   \<and> map_option Index (workingTree (fst (LoadWorkingTree fixedCodec truncatedEngine 7))) = Some 0"
proof -
  have get: "db_Get (db truncatedEngine) (PrefixedWorkingTreeKey 7) = Inr (FromUint64Key 3 @ [0, 0])"
    by (simp add: truncatedEngine_def db_Get_def)
  have dec: "unmarshalTreeInfo fixedCodec (FromUint64Key 3 @ [0, 0])
      = (\<lparr>Index = 0, StartLeafIndex = 0, LeafCount = 0, LastSiblings = None, Done = False\<rparr>,
         Some (ErrOther ''unexpected end of input''))"
    by (simp add: fixedCodec_def decodeTreeInfo_def FromUint64Key_def)
  show ?thesis
    using LoadWorkingTree_failed_decode [OF get dec]
    by (simp add: truncatedEngine_def)
qed





section \<open>Bit length and trailing ones\<close>


lemma trailingOnes_le_bitlen: "trailingOnes n \<le> bitlen n"
proof (induction n rule: bitlen.induct)
  case (1 n)
  show ?case
  proof (cases "n mod 2 = 0")
    case True
    then show ?thesis by (subst trailingOnes.simps) simp
  next
    case False
    then have pos: "n \<noteq> 0" by auto
    have "trailingOnes n = Suc (trailingOnes (n div 2))"
      using False by (subst trailingOnes.simps) simp
    moreover have "bitlen n = Suc (bitlen (n div 2))" using pos by (simp add: bitlen_pos)
    ultimately show ?thesis using "1.IH" pos by simp
  qed
qed





section \<open>Insertion\<close>

lemma length_FromUint64Key: "length (FromUint64Key v) = 8"
  by (simp add: FromUint64Key_def)

lemma PrefixedNodeKey_height:
  "PrefixedNodeKey i h n = PrefixedNodeKey i' h' n' \<Longrightarrow> h = h'"
  by (simp add: PrefixedNodeKey_def length_FromUint64Key)

lemma unat_add_level:
  fixes h :: uint8
  assumes "unat h + j < 256"
  shows "unat (h + of_nat j) = unat h + j"
  using assms by (simp add: unat_word_ariths unat_of_nat)

lemma pathNode_shift:
  "pathNode fn sib h d (Suc j) = pathNode fn sib (h + 1) (fn (sib h) d) j"
  by (induction j) (simp_all add: add.assoc)

lemma pathNode_cong:
  "(\<And>i. i < j \<Longrightarrow> sib (h + of_nat i) = sib' (h + of_nat i)) \<Longrightarrow>
   pathNode fn sib h d j = pathNode fn sib' h d j"
  by (induction j) simp_all

lemma insertLoop_nil:
  assumes "workingTree m = Some t" and "LastSiblings t = None"
  shows "insertLoop m height localNodeIndex data =
     (m\<lparr>db := (db m)\<lparr>kvs := AList.update (PrefixedNodeKey (Index t) height localNodeIndex)
                                  data (kvs (db m))\<rparr>\<rparr>,
      Some (Panic ''assignment to entry in nil map''))"
  using assms
  by (subst insertLoop.simps)
     (simp add: saveNode_def GetWorkingTreeIndex_def db_Set_def)

lemma InsertLeaf_nil:
  assumes "workingTree m = Some t" and "LastSiblings t = None"
  shows "InsertLeaf m data =
     (m\<lparr>db := (db m)\<lparr>kvs := AList.update (PrefixedNodeKey (Index t) 0 (LeafCount t))
                                  data (kvs (db m))\<rparr>\<rparr>,
      Some (Panic ''assignment to entry in nil map''))"
  using assms by (simp add: InsertLeaf_def insertLoop_nil)


lemma word_parity:
  fixes x :: uint64
  shows "(x mod 2 = 0) = (unat x mod 2 = 0)"
proof -
  have "unat (x mod 2) = unat x mod 2" by (simp add: unat_mod)
  then show ?thesis by (metis unat_eq_0)
qed

lemma insertLoop_effect:
  "workingTree m = Some t \<Longrightarrow> LastSiblings t = Some ls \<Longrightarrow>
   unat height + trailingOnes (unat localNodeIndex) < 256 \<Longrightarrow>
   \<exists>m' t' ls'. insertLoop m height localNodeIndex data = (m', None)
     \<and> workingTree m' = Some t' \<and> LastSiblings t' = Some ls'
     \<and> nodeGeneratorFn m' = nodeGeneratorFn m \<and> dbPrefix (db m') = dbPrefix (db m)
     \<and> Index t' = Index t \<and> StartLeafIndex t' = StartLeafIndex t
     \<and> LeafCount t' = LeafCount t \<and> Done t' = Done t
     \<and> (\<forall>j \<le> trailingOnes (unat localNodeIndex).
            ls' (height + of_nat j)
              = Some (pathNode (nodeGeneratorFn m) (lastSibling t) height data j)
          \<and> map_of (kvs (db m'))
                (PrefixedNodeKey (Index t) (height + of_nat j) (drop_bit j localNodeIndex))
              = Some (pathNode (nodeGeneratorFn m) (lastSibling t) height data j))
     \<and> (\<forall>x. (\<forall>j \<le> trailingOnes (unat localNodeIndex). x \<noteq> height + of_nat j)
            \<longrightarrow> ls' x = ls x)
     \<and> (\<forall>k. (\<forall>j \<le> trailingOnes (unat localNodeIndex).
                 k \<noteq> PrefixedNodeKey (Index t) (height + of_nat j) (drop_bit j localNodeIndex))
            \<longrightarrow> map_of (kvs (db m')) k = map_of (kvs (db m)) k)"
proof (induction m height localNodeIndex data arbitrary: t ls rule: insertLoop.induct)
  case (1 m height localNodeIndex data)
  let ?fn = "nodeGeneratorFn m"
  let ?key = "PrefixedNodeKey (Index t) height localNodeIndex"
  let ?d = "(db m)\<lparr>kvs := AList.update ?key data (kvs (db m))\<rparr>"
  let ?m1 = "m\<lparr>db := ?d\<rparr>"
  let ?t2 = "t\<lparr>LastSiblings := Some (ls(height \<mapsto> data))\<rparr>"
  let ?m2 = "?m1\<lparr>workingTree := Some ?t2\<rparr>"
  note wt = "1.prems"(1) and alloc = "1.prems"(2) and room = "1.prems"(3)
  have save: "saveNode m height localNodeIndex data = (?m1, None)"
    using wt by (simp add: saveNode_def GetWorkingTreeIndex_def db_Set_def)
  have wt1: "workingTree ?m1 = Some t" using wt by simp
  have key: "map_of (kvs (db ?m2)) ?key = Some data"
    by (simp add: update_conv')
  have others: "\<And>k. k \<noteq> ?key \<Longrightarrow> map_of (kvs (db ?m2)) k = map_of (kvs (db m)) k"
    by (simp add: update_conv')
  show ?case
  proof (cases "localNodeIndex mod 2 = 0")
    case True
    then have ones: "trailingOnes (unat localNodeIndex) = 0"
      by (subst trailingOnes.simps) (simp add: word_parity)
    have "insertLoop m height localNodeIndex data = (?m2, None)"
      using save wt1 alloc True by (subst insertLoop.simps) (simp add: Let_def)
    then show ?thesis using ones key others by simp
  next
    case False
    let ?n = "trailingOnes (unat localNodeIndex div 2)"
    let ?data' = "nodeGeneratorFn ?m2 (lastSibling t height) data"
    have ones: "trailingOnes (unat localNodeIndex) = Suc ?n"
      using False by (subst trailingOnes.simps) (simp add: word_parity)
    have half: "unat (localNodeIndex div 2) = unat localNodeIndex div 2"
      by (simp add: unat_div)
    have level: "\<And>j. j \<le> Suc ?n \<Longrightarrow> unat (height + of_nat j) = unat height + j"
      using room ones by (intro unat_add_level) simp
    have up: "\<And>j. height + 1 + of_nat j = height + of_nat (Suc j)"
      by (simp add: add.assoc)
    have suc: "unat (height + 1) = unat height + 1" using level [of 1] by simp
    have room': "unat (height + 1) + trailingOnes (unat (localNodeIndex div 2)) < 256"
      using room ones suc half by simp
    have above: "\<And>j. j \<le> ?n \<Longrightarrow> height + of_nat (Suc j) \<noteq> height"
    proof
      fix j assume "j \<le> ?n" and "height + of_nat (Suc j) = height"
      then have "unat (height + of_nat (Suc j)) = unat height" by simp
      with level [of "Suc j"] \<open>j \<le> ?n\<close> show False by simp
    qed
    have step: "insertLoop m height localNodeIndex data =
        insertLoop ?m2 (height + 1) (localNodeIndex div 2) ?data'"
      using save wt1 alloc False by (subst insertLoop.simps) (simp add: Let_def)
    have wt2: "workingTree ?m2 = Some ?t2" by simp
    have alloc2: "LastSiblings ?t2 = Some (ls(height \<mapsto> data))" by simp
    obtain m' t' ls' where res: "insertLoop ?m2 (height + 1) (localNodeIndex div 2) ?data'
          = (m', None)"
      and wt': "workingTree m' = Some t'" and alloc': "LastSiblings t' = Some ls'"
      and gen: "nodeGeneratorFn m' = nodeGeneratorFn ?m2"
      and pre: "dbPrefix (db m') = dbPrefix (db ?m2)"
      and same: "Index t' = Index ?t2" "StartLeafIndex t' = StartLeafIndex ?t2"
        "LeafCount t' = LeafCount ?t2" "Done t' = Done ?t2"
      and path: "\<forall>j \<le> trailingOnes (unat (localNodeIndex div 2)).
            ls' (height + 1 + of_nat j)
              = Some (pathNode (nodeGeneratorFn ?m2) (lastSibling ?t2) (height + 1) ?data' j)
          \<and> map_of (kvs (db m'))
                (PrefixedNodeKey (Index ?t2) (height + 1 + of_nat j)
                   (drop_bit j (localNodeIndex div 2)))
              = Some (pathNode (nodeGeneratorFn ?m2) (lastSibling ?t2) (height + 1) ?data' j)"
      and rest: "\<forall>x. (\<forall>j \<le> trailingOnes (unat (localNodeIndex div 2)).
                    x \<noteq> height + 1 + of_nat j) \<longrightarrow> ls' x = (ls(height \<mapsto> data)) x"
      and keys: "\<forall>k. (\<forall>j \<le> trailingOnes (unat (localNodeIndex div 2)).
                 k \<noteq> PrefixedNodeKey (Index ?t2) (height + 1 + of_nat j)
                        (drop_bit j (localNodeIndex div 2)))
            \<longrightarrow> map_of (kvs (db m')) k = map_of (kvs (db ?m2)) k"
      using "1.IH" [OF save [symmetric] refl wt1 refl alloc refl False wt2 alloc2 room']
      by blast
    have sib: "\<And>j i. j \<le> ?n \<Longrightarrow> i < j \<Longrightarrow>
        lastSibling ?t2 (height + 1 + of_nat i) = lastSibling t (height + 1 + of_nat i)"
      using above alloc by (simp add: lastSibling_def up)
    have node: "\<And>j. j \<le> ?n \<Longrightarrow>
        pathNode (nodeGeneratorFn ?m2) (lastSibling ?t2) (height + 1) ?data' j
          = pathNode ?fn (lastSibling t) height data (Suc j)"
    proof -
      fix j assume j: "j \<le> ?n"
      have "pathNode ?fn (lastSibling ?t2) (height + 1) ?data' j
          = pathNode ?fn (lastSibling t) (height + 1) ?data' j"
        by (rule pathNode_cong) (use sib j in simp)
      also have "\<dots> = pathNode ?fn (lastSibling t) height data (Suc j)"
        using pathNode_shift [of ?fn "lastSibling t" height data j] by simp
      finally show "pathNode (nodeGeneratorFn ?m2) (lastSibling ?t2) (height + 1) ?data' j
          = pathNode ?fn (lastSibling t) height data (Suc j)"
        by simp
    qed
    have drop: "\<And>j. drop_bit j (localNodeIndex div 2) = drop_bit (Suc j) localNodeIndex"
      by (simp add: drop_bit_Suc)
    have lower: "ls' height = Some data"
      using rest above by (simp add: half up)
    have lowerkey: "map_of (kvs (db m')) ?key = Some data"
    proof -
      have "\<forall>j \<le> ?n. ?key \<noteq> PrefixedNodeKey (Index ?t2) (height + 1 + of_nat j)
                        (drop_bit j (localNodeIndex div 2))"
        using above by (auto simp: up dest!: PrefixedNodeKey_height)
      then show ?thesis using keys key by (simp add: half)
    qed
    have P: "\<forall>j \<le> Suc ?n.
            ls' (height + of_nat j) = Some (pathNode ?fn (lastSibling t) height data j)
          \<and> map_of (kvs (db m'))
                (PrefixedNodeKey (Index t) (height + of_nat j) (drop_bit j localNodeIndex))
              = Some (pathNode ?fn (lastSibling t) height data j)"
    proof (intro allI impI)
      fix j assume j: "j \<le> Suc ?n"
      show "ls' (height + of_nat j) = Some (pathNode ?fn (lastSibling t) height data j)
          \<and> map_of (kvs (db m'))
                (PrefixedNodeKey (Index t) (height + of_nat j) (drop_bit j localNodeIndex))
              = Some (pathNode ?fn (lastSibling t) height data j)"
      proof (cases j)
        case 0
        then show ?thesis using lower lowerkey by simp
      next
        case (Suc i)
        with j have i: "i \<le> ?n" by simp
        then show ?thesis
          using path node [OF i] Suc by (simp add: half up drop)
      qed
    qed
    have R: "\<forall>x. (\<forall>j \<le> Suc ?n. x \<noteq> height + of_nat j) \<longrightarrow> ls' x = ls x"
    proof (intro allI impI)
      fix x assume x: "\<forall>j \<le> Suc ?n. x \<noteq> height + of_nat j"
      from x [rule_format, of 0] have "x \<noteq> height" by simp
      moreover have "\<forall>j \<le> ?n. x \<noteq> height + 1 + of_nat j"
      proof (intro allI impI)
        fix j assume "j \<le> ?n"
        then have "Suc j \<le> Suc ?n" by simp
        with x have "x \<noteq> height + of_nat (Suc j)" by blast
        then show "x \<noteq> height + 1 + of_nat j" by (simp only: up not_False_eq_True)
      qed
      ultimately show "ls' x = ls x" using rest by (simp add: half)
    qed
    have K: "\<forall>k. (\<forall>j \<le> Suc ?n.
                 k \<noteq> PrefixedNodeKey (Index t) (height + of_nat j) (drop_bit j localNodeIndex))
            \<longrightarrow> map_of (kvs (db m')) k = map_of (kvs (db m)) k"
    proof (intro allI impI)
      fix k assume k: "\<forall>j \<le> Suc ?n.
                 k \<noteq> PrefixedNodeKey (Index t) (height + of_nat j) (drop_bit j localNodeIndex)"
      from k [rule_format, of 0] have "k \<noteq> ?key" by simp
      moreover have "\<forall>j \<le> ?n. k \<noteq> PrefixedNodeKey (Index ?t2) (height + 1 + of_nat j)
                        (drop_bit j (localNodeIndex div 2))"
      proof (intro allI impI)
        fix j assume "j \<le> ?n"
        then have "Suc j \<le> Suc ?n" by simp
        with k have "k \<noteq> PrefixedNodeKey (Index t) (height + of_nat (Suc j))
                      (drop_bit (Suc j) localNodeIndex)"
          by blast
        then show "k \<noteq> PrefixedNodeKey (Index ?t2) (height + 1 + of_nat j)
                        (drop_bit j (localNodeIndex div 2))"
          by (simp only: up drop) simp
      qed
      ultimately show "map_of (kvs (db m')) k = map_of (kvs (db m)) k"
        using keys others by (simp add: half)
    qed
    show ?thesis
      using step res wt' alloc' gen pre same P R K ones by simp
  qed
qed


lemma InsertLeaf_effect:
  assumes wt: "workingTree m = Some t" and alloc: "LastSiblings t = Some ls"
  shows "\<exists>m' t' ls'. InsertLeaf m data = (m', None)
     \<and> workingTree m' = Some t' \<and> LastSiblings t' = Some ls'
     \<and> nodeGeneratorFn m' = nodeGeneratorFn m \<and> dbPrefix (db m') = dbPrefix (db m)
     \<and> Index t' = Index t \<and> StartLeafIndex t' = StartLeafIndex t
     \<and> LeafCount t' = LeafCount t + 1 \<and> Done t' = Done t
     \<and> (\<forall>j \<le> trailingOnes (unat (LeafCount t)).
            ls' (of_nat j) = Some (pathNode (nodeGeneratorFn m) (lastSibling t) 0 data j)
          \<and> getNode m' (Index t) (of_nat j) (drop_bit j (LeafCount t))
              = Inr (pathNode (nodeGeneratorFn m) (lastSibling t) 0 data j))
     \<and> (\<forall>x. trailingOnes (unat (LeafCount t)) < unat x \<longrightarrow> ls' x = ls x)
     \<and> (\<forall>k. (\<forall>j \<le> trailingOnes (unat (LeafCount t)).
                 k \<noteq> PrefixedNodeKey (Index t) (of_nat j) (drop_bit j (LeafCount t)))
            \<longrightarrow> db_Get (db m') k = db_Get (db m) k)"
proof -
  let ?n = "trailingOnes (unat (LeafCount t))"
  have n64: "?n \<le> 64"
    using trailingOnes_le_bitlen [of "unat (LeafCount t)"] Len64_le [of "LeafCount t"]
    by (simp add: Len64_def)
  then have room: "unat (0 :: uint8) + ?n < 256" by simp
  obtain m1 t1 ls1 where loop: "insertLoop m 0 (LeafCount t) data = (m1, None)"
    and wt1: "workingTree m1 = Some t1" and alloc1: "LastSiblings t1 = Some ls1"
    and gen: "nodeGeneratorFn m1 = nodeGeneratorFn m"
    and pre: "dbPrefix (db m1) = dbPrefix (db m)"
    and same: "Index t1 = Index t" "StartLeafIndex t1 = StartLeafIndex t"
      "LeafCount t1 = LeafCount t" "Done t1 = Done t"
    and path: "\<forall>j \<le> ?n.
            ls1 (0 + of_nat j) = Some (pathNode (nodeGeneratorFn m) (lastSibling t) 0 data j)
          \<and> map_of (kvs (db m1))
                (PrefixedNodeKey (Index t) (0 + of_nat j) (drop_bit j (LeafCount t)))
              = Some (pathNode (nodeGeneratorFn m) (lastSibling t) 0 data j)"
    and rest: "\<forall>x. (\<forall>j \<le> ?n. x \<noteq> 0 + of_nat j) \<longrightarrow> ls1 x = ls x"
    and keys: "\<forall>k. (\<forall>j \<le> ?n.
                 k \<noteq> PrefixedNodeKey (Index t) (0 + of_nat j) (drop_bit j (LeafCount t)))
            \<longrightarrow> map_of (kvs (db m1)) k = map_of (kvs (db m)) k"
    using insertLoop_effect [OF wt alloc room, of data] by blast
  let ?t' = "t1\<lparr>LeafCount := LeafCount t1 + 1\<rparr>"
  let ?m' = "m1\<lparr>workingTree := Some ?t'\<rparr>"
  have res: "InsertLeaf m data = (?m', None)"
    using wt loop wt1 by (simp add: InsertLeaf_def)
  have P: "\<forall>j \<le> ?n.
            ls1 (of_nat j) = Some (pathNode (nodeGeneratorFn m) (lastSibling t) 0 data j)
          \<and> getNode ?m' (Index t) (of_nat j) (drop_bit j (LeafCount t))
              = Inr (pathNode (nodeGeneratorFn m) (lastSibling t) 0 data j)"
    using path by (simp add: getNode_def db_Get_def)
  have R: "\<forall>x. ?n < unat x \<longrightarrow> ls1 x = ls x"
  proof (intro allI impI)
    fix x :: uint8 assume x: "?n < unat x"
    have "\<forall>j \<le> ?n. x \<noteq> 0 + of_nat j"
    proof (intro allI impI notI)
      fix j assume j: "j \<le> ?n" and "x = 0 + of_nat j"
      then have "unat x = j" using n64 by (simp add: unat_of_nat)
      with x j show False by simp
    qed
    with rest show "ls1 x = ls x" by blast
  qed
  have K: "\<forall>k. (\<forall>j \<le> ?n.
                 k \<noteq> PrefixedNodeKey (Index t) (of_nat j) (drop_bit j (LeafCount t)))
            \<longrightarrow> db_Get (db ?m') k = db_Get (db m) k"
    using keys by (simp add: db_Get_def)
  show ?thesis
    using res wt1 alloc1 gen pre same P R K by simp
qed

lemma InsertLeaf_ok:
  assumes "workingTree m = Some t" and "LastSiblings t = Some ls"
  shows "\<exists>m' t' ls'. InsertLeaf m data = (m', None)
     \<and> workingTree m' = Some t' \<and> LastSiblings t' = Some ls'
     \<and> nodeGeneratorFn m' = nodeGeneratorFn m
     \<and> Index t' = Index t \<and> StartLeafIndex t' = StartLeafIndex t
     \<and> LeafCount t' = LeafCount t + 1 \<and> Done t' = Done t"
  using InsertLeaf_effect [OF assms, of data] by blast


lemma nilMapEngine_eval:
  "nilMapEngine =
     bareRecordEngine\<lparr>workingTree :=
       Some \<lparr>Index = 1, StartLeafIndex = 1, LeafCount = 3, LastSiblings = None,
              Done = False\<rparr>\<rparr>"
  "snd (LoadWorkingTree fixedCodec bareRecordEngine 7) = None"
  by (simp_all add: nilMapEngine_def bareRecordEngine_def LoadWorkingTree_def example_defs)

lemma panickedEngine_tree:
  "workingTree panickedEngine
     = Some \<lparr>Index = 1, StartLeafIndex = 1, LeafCount = 3, LastSiblings = None, Done = True\<rparr>"
  by (simp add: panickedEngine_def nilMapEngine_eval bareRecordEngine_def engine_defs
      example_defs insertRepeat_Suc_eval)

lemma tree1Engine_tree:
  "workingTree tree1Engine
      = Some \<lparr>Index = 1, StartLeafIndex = 1, LeafCount = 2,
               LastSiblings = Some [0 \<mapsto> [2, 2], 1 \<mapsto> [3, 3]], Done = True\<rparr>"
  by (simp add: tree1Engine_def engine_defs example_defs upt_rec)

lemma trailingOnes_even: "n mod 2 = 0 \<Longrightarrow> trailingOnes n = 0"
  by (subst trailingOnes.simps) simp

lemma trailingOnes_odd: "n mod 2 \<noteq> 0 \<Longrightarrow> trailingOnes n = Suc (trailingOnes (n div 2))"
  by (subst trailingOnes.simps) simp

text \<open>
  Claim C8, as amended. \<open>InsertLeaf\<close> does not look at the \<open>Done\<close> flag. On a working tree
  with \<open>Done = true\<close> whose frontier map is allocated it returns no error and inserts the
  leaf: the leaf becomes node \<open>(Index, 0, LeafCount)\<close> and \<open>LastSiblings[0]\<close>; for every
  trailing one bit of \<open>LeafCount\<close> the node is paired with the former last sibling of its
  level, and the parent becomes the node and the last sibling one level up; higher levels
  and every other store entry stay as they were; \<open>LeafCount\<close> grows by one; flag, tree
  index and start index are unchanged. When the map is nil, the insertion panics at the
  first assignment to it, after the leaf node is written.
\<close>

theorem InsertLeaf_on_Done:
  assumes "workingTree m = Some t" and "Done t"
  shows "(\<forall>ls. LastSiblings t = Some ls \<longrightarrow>
           (\<exists>m' t' ls'. InsertLeaf m data = (m', None)
              \<and> workingTree m' = Some t' \<and> LastSiblings t' = Some ls'
              \<and> Done t' \<and> LeafCount t' = LeafCount t + 1
              \<and> Index t' = Index t \<and> StartLeafIndex t' = StartLeafIndex t
              \<and> (\<forall>j \<le> trailingOnes (unat (LeafCount t)).
                     ls' (of_nat j)
                       = Some (pathNode (nodeGeneratorFn m) (lastSibling t) 0 data j)
                   \<and> getNode m' (Index t) (of_nat j) (drop_bit j (LeafCount t))
                       = Inr (pathNode (nodeGeneratorFn m) (lastSibling t) 0 data j))
              \<and> (\<forall>x. trailingOnes (unat (LeafCount t)) < unat x \<longrightarrow> ls' x = ls x)
              \<and> (\<forall>k. (\<forall>j \<le> trailingOnes (unat (LeafCount t)).
                          k \<noteq> PrefixedNodeKey (Index t) (of_nat j)
                                 (drop_bit j (LeafCount t)))
                     \<longrightarrow> db_Get (db m') k = db_Get (db m) k)))
   \<and> (LastSiblings t = None \<longrightarrow>
         InsertLeaf m data =
           (m\<lparr>db := (db m)\<lparr>kvs := AList.update (PrefixedNodeKey (Index t) 0 (LeafCount t))
                                        data (kvs (db m))\<rparr>\<rparr>,
            Some (Panic ''assignment to entry in nil map'')))"
proof (intro conjI allI impI)
  fix ls assume alloc: "LastSiblings t = Some ls"
  show "\<exists>m' t' ls'. InsertLeaf m data = (m', None)
              \<and> workingTree m' = Some t' \<and> LastSiblings t' = Some ls'
              \<and> Done t' \<and> LeafCount t' = LeafCount t + 1
              \<and> Index t' = Index t \<and> StartLeafIndex t' = StartLeafIndex t
              \<and> (\<forall>j \<le> trailingOnes (unat (LeafCount t)).
                     ls' (of_nat j)
                       = Some (pathNode (nodeGeneratorFn m) (lastSibling t) 0 data j)
                   \<and> getNode m' (Index t) (of_nat j) (drop_bit j (LeafCount t))
                       = Inr (pathNode (nodeGeneratorFn m) (lastSibling t) 0 data j))
              \<and> (\<forall>x. trailingOnes (unat (LeafCount t)) < unat x \<longrightarrow> ls' x = ls x)
              \<and> (\<forall>k. (\<forall>j \<le> trailingOnes (unat (LeafCount t)).
                          k \<noteq> PrefixedNodeKey (Index t) (of_nat j)
                                 (drop_bit j (LeafCount t)))
                     \<longrightarrow> db_Get (db m') k = db_Get (db m) k)"
    using InsertLeaf_effect [OF assms(1) alloc, of data] assms(2) by auto
next
  assume "LastSiblings t = None"
  then show "InsertLeaf m data =
           (m\<lparr>db := (db m)\<lparr>kvs := AList.update (PrefixedNodeKey (Index t) 0 (LeafCount t))
                                        data (kvs (db m))\<rparr>\<rparr>,
            Some (Panic ''assignment to entry in nil map''))"
    using assms(1) by (rule InsertLeaf_nil [rotated])
qed

theorem InsertLeaf_on_Done_witness:
  "(\<exists>m' t' ls'. InsertLeaf tree1Engine [9, 9] = (m', None)
      \<and> workingTree m' = Some t' \<and> LastSiblings t' = Some ls'
      \<and> Done t' \<and> LeafCount t' = 3 \<and> Index t' = 1 \<and> StartLeafIndex t' = 1
      \<and> ls' 0 = Some [9, 9] \<and> getNode m' 1 0 2 = Inr [9, 9] \<and> ls' 1 = Some [3, 3])
   \<and> snd (InsertLeaf panickedEngine [9, 9]) = Some (Panic ''assignment to entry in nil map'')
   \<and> workingTree (fst (InsertLeaf panickedEngine [9, 9])) = workingTree panickedEngine
   \<and> getNode (fst (InsertLeaf panickedEngine [9, 9])) 1 0 3 = Inr [9, 9]"
proof -
  let ?t = "\<lparr>Index = 1, StartLeafIndex = 1, LeafCount = 2,
             LastSiblings = Some [0 \<mapsto> [2, 2], 1 \<mapsto> [3, 3]], Done = True\<rparr>"
  let ?ls = "[0 :: uint8 \<mapsto> [2 :: 8 word, 2], 1 \<mapsto> [3, 3]]"
  let ?u = "\<lparr>Index = 1, StartLeafIndex = 1, LeafCount = 3, LastSiblings = None, Done = True\<rparr>"
  have ones: "trailingOnes (unat (LeafCount ?t)) = 0" by (simp add: trailingOnes_even)
  have "\<forall>ls. LastSiblings ?t = Some ls \<longrightarrow>
           (\<exists>m' t' ls'. InsertLeaf tree1Engine [9, 9] = (m', None)
              \<and> workingTree m' = Some t' \<and> LastSiblings t' = Some ls'
              \<and> Done t' \<and> LeafCount t' = LeafCount ?t + 1
              \<and> Index t' = Index ?t \<and> StartLeafIndex t' = StartLeafIndex ?t
              \<and> (\<forall>j \<le> trailingOnes (unat (LeafCount ?t)).
                     ls' (of_nat j)
                       = Some (pathNode (nodeGeneratorFn tree1Engine) (lastSibling ?t) 0 [9, 9] j)
                   \<and> getNode m' (Index ?t) (of_nat j) (drop_bit j (LeafCount ?t))
                       = Inr (pathNode (nodeGeneratorFn tree1Engine) (lastSibling ?t) 0 [9, 9] j))
              \<and> (\<forall>x. trailingOnes (unat (LeafCount ?t)) < unat x \<longrightarrow> ls' x = ls x)
              \<and> (\<forall>k. (\<forall>j \<le> trailingOnes (unat (LeafCount ?t)).
                          k \<noteq> PrefixedNodeKey (Index ?t) (of_nat j)
                                 (drop_bit j (LeafCount ?t)))
                     \<longrightarrow> db_Get (db m') k = db_Get (db tree1Engine) k))"
    using InsertLeaf_on_Done [OF tree1Engine_tree, of "[9, 9]"] by simp
  then obtain m' t' ls' where r: "InsertLeaf tree1Engine [9, 9] = (m', None)"
      "workingTree m' = Some t'" "LastSiblings t' = Some ls'" "Done t'"
      "LeafCount t' = LeafCount ?t + 1" "Index t' = Index ?t"
      "StartLeafIndex t' = StartLeafIndex ?t"
    and path: "\<forall>j \<le> trailingOnes (unat (LeafCount ?t)).
                     ls' (of_nat j)
                       = Some (pathNode (nodeGeneratorFn tree1Engine) (lastSibling ?t) 0 [9, 9] j)
                   \<and> getNode m' (Index ?t) (of_nat j) (drop_bit j (LeafCount ?t))
                       = Inr (pathNode (nodeGeneratorFn tree1Engine) (lastSibling ?t) 0 [9, 9] j)"
    and rest: "\<forall>x. trailingOnes (unat (LeafCount ?t)) < unat x \<longrightarrow> ls' x = ?ls x"
    by auto
  from path [rule_format, of 0] have "ls' 0 = Some [9, 9]" "getNode m' 1 0 2 = Inr [9, 9]"
    by simp_all
  moreover from rest [rule_format, of 1] ones have "ls' 1 = Some [3, 3]" by simp
  ultimately have first: "\<exists>m' t' ls'. InsertLeaf tree1Engine [9, 9] = (m', None)
      \<and> workingTree m' = Some t' \<and> LastSiblings t' = Some ls'
      \<and> Done t' \<and> LeafCount t' = 3 \<and> Index t' = 1 \<and> StartLeafIndex t' = 1
      \<and> ls' 0 = Some [9, 9] \<and> getNode m' 1 0 2 = Inr [9, 9] \<and> ls' 1 = Some [3, 3]"
    using r by simp
  have "InsertLeaf panickedEngine [9, 9] =
           (panickedEngine\<lparr>db := (db panickedEngine)\<lparr>kvs :=
               AList.update (PrefixedNodeKey (Index ?u) 0 (LeafCount ?u)) [9, 9]
                 (kvs (db panickedEngine))\<rparr>\<rparr>,
            Some (Panic ''assignment to entry in nil map''))"
    using InsertLeaf_on_Done [OF panickedEngine_tree, of "[9, 9]"] by simp
  then have second:
    "snd (InsertLeaf panickedEngine [9, 9]) = Some (Panic ''assignment to entry in nil map'')"
    "workingTree (fst (InsertLeaf panickedEngine [9, 9])) = workingTree panickedEngine"
    "getNode (fst (InsertLeaf panickedEngine [9, 9])) 1 0 3 = Inr [9, 9]"
    by (simp_all add: getNode_def db_Get_def update_conv')
  from first second show ?thesis by blast
qed

text \<open>
  Claim C8, as stated, fails: the finalized tree of two leaves is done, and inserting a leaf
  into it returns no error and changes the tree.
\<close>

theorem InsertLeaf_Done_accepted:
  "map_option Done (workingTree tree1Engine) = Some True
   \<and> map_option LeafCount (workingTree tree1Engine) = Some 2
   \<and> snd (InsertLeaf tree1Engine [9, 9]) = None
   \<and> map_option LeafCount (workingTree (fst (InsertLeaf tree1Engine [9, 9]))) = Some 3"
  by (simp add: tree1Engine_def engine_defs example_defs upt_rec)

section \<open>Proof service\<close>

text \<open>
  Claim C4. \<open>GetProofs\<close> returns \<open>ErrUnfinalizedTree\<close> when the seek finds no key, and when
  the index lies at or beyond \<open>LeafCount\<close> of the located record; it returns the
  leaf-not-in-tree error when the index lies below the record's start. An error result
  carries no proofs.
\<close>

theorem GetProofs_errors:
  "(db_SeekPrevInclusiveKey (db m) FinalizedTreeKey (PrefixedFinalizedTreeKey leafIndex)
      = Inl ErrNotFound
    \<longrightarrow> GetProofs c m leafIndex = Inl ErrUnfinalizedTree)
   \<and> (db_SeekPrevInclusiveKey (db m) FinalizedTreeKey (PrefixedFinalizedTreeKey leafIndex)
        = Inr (key, val)
      \<and> unmarshalFinalizedTreeInfo c val = Inr info
      \<and> leafIndex < FStartLeafIndex info
    \<longrightarrow> GetProofs c m leafIndex = Inl (ErrLeafNotInTree leafIndex (TreeIndex info)))
   \<and> (db_SeekPrevInclusiveKey (db m) FinalizedTreeKey (PrefixedFinalizedTreeKey leafIndex)
        = Inr (key, val)
      \<and> unmarshalFinalizedTreeInfo c val = Inr info
      \<and> FStartLeafIndex info \<le> leafIndex
      \<and> FLeafCount info \<le> leafIndex - FStartLeafIndex info
    \<longrightarrow> GetProofs c m leafIndex = Inl ErrUnfinalizedTree)"
  by (simp add: GetProofs_def not_less [symmetric])

theorem GetProofs_errors_witness:
  "GetProofs fixedCodec engine0 5 = Inl ErrUnfinalizedTree
   \<and> GetProofs fixedCodec misfiledEngine 3 = Inl (ErrLeafNotInTree 3 1)
   \<and> GetProofs fixedCodec provingEngine 4 = Inl ErrUnfinalizedTree"
proof -
  have a: "db_SeekPrevInclusiveKey (db engine0) FinalizedTreeKey (PrefixedFinalizedTreeKey 5)
      = Inl ErrNotFound"
    by (simp add: store_defs example_defs)
  have b: "db_SeekPrevInclusiveKey (db misfiledEngine) FinalizedTreeKey (PrefixedFinalizedTreeKey 3)
      = Inr (PrefixedFinalizedTreeKey 1,
             [0, 0, 0, 0, 0, 0, 0, 1, 1, 0, 0, 0, 0, 0, 0, 0, 5, 0, 0, 0, 0, 0, 0, 0, 2, 1, 7])"
    by (simp add: misfiledEngine_def store_defs example_defs)
  have b': "unmarshalFinalizedTreeInfo fixedCodec
        [0, 0, 0, 0, 0, 0, 0, 1, 1, 0, 0, 0, 0, 0, 0, 0, 5, 0, 0, 0, 0, 0, 0, 0, 2, 1, 7]
      = Inr \<lparr>TreeIndex = 1, TreeHeight = 1, Root = [7], FStartLeafIndex = 5, FLeafCount = 2,
              ExtraData = []\<rparr>"
    by (simp add: example_defs)
  show ?thesis
    using GetProofs_errors [where m = engine0 and leafIndex = 5 and c = fixedCodec]
      GetProofs_errors [where m = misfiledEngine and leafIndex = 3 and c = fixedCodec
        and key = "PrefixedFinalizedTreeKey 1"
        and val = "[0, 0, 0, 0, 0, 0, 0, 1, 1, 0, 0, 0, 0, 0, 0, 0, 5, 0, 0, 0, 0, 0, 0, 0, 2, 1, 7]"
        and info = "\<lparr>TreeIndex = 1, TreeHeight = 1, Root = [7], FStartLeafIndex = 5,
                      FLeafCount = 2, ExtraData = []\<rparr>"]
      GetProofs_errors [where m = provingEngine and leafIndex = 4 and c = fixedCodec
        and key = "PrefixedFinalizedTreeKey 1"
        and val = "[0, 0, 0, 0, 0, 0, 0, 1, 2, 0, 0, 0, 0, 0, 0, 0, 1, 0, 0, 0, 0, 0, 0,
                        0, 3, 1, 3, 101]"
        and info = "\<lparr>TreeIndex = 1, TreeHeight = 2, Root = [3], FStartLeafIndex = 1,
                      FLeafCount = 3, ExtraData = [101]\<rparr>"]
    by (simp add: a b b' provingEngine_seek provingEngine_record word_le_nat_alt)
qed


lemma proofLoop_result:
  assumes "proofLoop m treeInfo height localNodeIndex acc = Inr proofs"
    and "height \<le> TreeHeight treeInfo"
  shows "\<exists>new. proofs = acc @ new
     \<and> length new = unat (TreeHeight treeInfo) - unat height
     \<and> (\<forall>j < length new.
           getNode m (TreeIndex treeInfo) (height + of_nat j)
             (drop_bit j localNodeIndex XOR 1) = Inr (new ! j))"
  using assms
proof (induction m treeInfo height localNodeIndex acc rule: proofLoop.induct)
  case (1 m treeInfo height localNodeIndex acc)
  show ?case
  proof (cases "height < TreeHeight treeInfo")
    case False
    with "1.prems" have eq: "height = TreeHeight treeInfo" by simp
    have "proofLoop m treeInfo height localNodeIndex acc = Inr acc"
      using False by (subst proofLoop.simps) simp
    with "1.prems" eq show ?thesis by simp
  next
    case True
    then have lt: "unat height < unat (TreeHeight treeInfo)"
      by (simp add: word_less_nat_alt)
    have "unat (TreeHeight treeInfo) < 2 ^ 8"
      using unsigned_less [of "TreeHeight treeInfo", where 'a=nat] by simp
    with lt have "unat height + 1 < 2 ^ 8" by simp
    then have suc: "unat (height + 1) = unat height + 1"
      by (simp add: unat_word_ariths)
    with lt have le: "height + 1 \<le> TreeHeight treeInfo"
      by (simp add: word_le_nat_alt)
    obtain sibling where
      get: "getNode m (TreeIndex treeInfo) height (localNodeIndex XOR 1) = Inr sibling"
      and rec: "proofLoop m treeInfo (height + 1) (localNodeIndex div 2) (acc @ [sibling])
                  = Inr proofs"
      using "1.prems"(1) True
      by (subst (asm) proofLoop.simps) (auto split: sum.splits)
    obtain new where new: "proofs = (acc @ [sibling]) @ new"
      and len: "length new = unat (TreeHeight treeInfo) - unat (height + 1)"
      and nodes: "\<forall>j < length new.
           getNode m (TreeIndex treeInfo) (height + 1 + of_nat j)
             (drop_bit j (localNodeIndex div 2) XOR 1) = Inr (new ! j)"
      using "1.IH" [OF True get rec le] by blast
    have half: "\<And>j. drop_bit j (localNodeIndex div 2) = drop_bit (Suc j) localNodeIndex"
      by (simp add: drop_bit_Suc)
    have "\<forall>j < length (sibling # new).
           getNode m (TreeIndex treeInfo) (height + of_nat j)
             (drop_bit j localNodeIndex XOR 1) = Inr ((sibling # new) ! j)"
    proof (intro allI impI)
      fix j assume j: "j < length (sibling # new)"
      show "getNode m (TreeIndex treeInfo) (height + of_nat j)
             (drop_bit j localNodeIndex XOR 1) = Inr ((sibling # new) ! j)"
      proof (cases j)
        case 0
        then show ?thesis using get by simp
      next
        case (Suc i)
        with j have "i < length new" by simp
        with nodes have "getNode m (TreeIndex treeInfo) (height + 1 + of_nat i)
             (drop_bit i (localNodeIndex div 2) XOR 1) = Inr (new ! i)" by simp
        then show ?thesis using Suc by (simp add: half add.assoc)
      qed
    qed
    moreover have "length (sibling # new) = unat (TreeHeight treeInfo) - unat height"
      using len suc lt by simp
    moreover have "proofs = acc @ (sibling # new)" using new by simp
    ultimately show ?thesis by blast
  qed
qed

text \<open>
  Claim C5. A successful \<open>GetProofs\<close> located a finalized record; the proof list has
  exactly \<open>TreeHeight\<close> elements, and element \<open>h\<close> is the stored node of that tree at height
  \<open>h\<close> and index \<open>localIndex XOR 1\<close>, where \<open>localIndex\<close> is
  \<open>leafIndex - StartLeafIndex\<close> halved \<open>h\<close> times.
\<close>

theorem GetProofs_proofs:
  assumes "GetProofs c m leafIndex = Inr (proofs, treeIndex, rootData, extraData)"
  shows "\<exists>key val info.
       db_SeekPrevInclusiveKey (db m) FinalizedTreeKey (PrefixedFinalizedTreeKey leafIndex)
         = Inr (key, val)
     \<and> unmarshalFinalizedTreeInfo c val = Inr info
     \<and> treeIndex = TreeIndex info
     \<and> length proofs = unat (TreeHeight info)
     \<and> (\<forall>h < unat (TreeHeight info).
           getNode m treeIndex (of_nat h)
             (drop_bit h (leafIndex - FStartLeafIndex info) XOR 1) = Inr (proofs ! h))"
proof -
  obtain key val where seek:
      "db_SeekPrevInclusiveKey (db m) FinalizedTreeKey (PrefixedFinalizedTreeKey leafIndex)
         = Inr (key, val)"
    using assms by (auto simp: GetProofs_def split: sum.splits if_splits)
  obtain info where dec: "unmarshalFinalizedTreeInfo c val = Inr info"
    using assms seek by (auto simp: GetProofs_def split: sum.splits if_splits)
  have loop: "proofLoop m info 0 (leafIndex - FStartLeafIndex info) [] = Inr proofs"
    and ti: "treeIndex = TreeIndex info"
    using assms seek dec by (auto simp: GetProofs_def split: sum.splits if_splits)
  obtain new where "proofs = [] @ new"
    and "length new = unat (TreeHeight info) - unat (0 :: uint8)"
    and "\<forall>j < length new.
           getNode m (TreeIndex info) (0 + of_nat j)
             (drop_bit j (leafIndex - FStartLeafIndex info) XOR 1) = Inr (new ! j)"
    using proofLoop_result [OF loop] by auto
  then have "length proofs = unat (TreeHeight info)"
    and "\<forall>h < unat (TreeHeight info).
           getNode m treeIndex (of_nat h)
             (drop_bit h (leafIndex - FStartLeafIndex info) XOR 1) = Inr (proofs ! h)"
    using ti by simp_all
  with seek dec ti show ?thesis by blast
qed

lemma provingEngine_GetProofs:
  "GetProofs fixedCodec provingEngine 2 = Inr ([[1], [0]], 1, [3], [101])"
  by (simp add: GetProofs_def provingEngine_seek provingEngine_record proofLoop.simps
      getNode_def db_Get_def provingEngine_kvs PrefixedNodeKey_def NodeKey_def strBytes_def
      FromUint64Key_def word_le_nat_alt)

theorem GetProofs_proofs_witness:
  "\<exists>key val info.
       db_SeekPrevInclusiveKey (db provingEngine) FinalizedTreeKey (PrefixedFinalizedTreeKey 2)
         = Inr (key, val)
     \<and> unmarshalFinalizedTreeInfo fixedCodec val = Inr info
     \<and> 1 = TreeIndex info
     \<and> length [[1], [0 :: 8 word]] = unat (TreeHeight info)
     \<and> (\<forall>h < unat (TreeHeight info).
           getNode provingEngine 1 (of_nat h)
             (drop_bit h (2 - FStartLeafIndex info) XOR 1) = Inr ([[1], [0]] ! h))"
  by (rule GetProofs_proofs [OF provingEngine_GetProofs])

section \<open>Rollback\<close>

lemma hasPrefix_length: "hasPrefix p k \<Longrightarrow> length p \<le> length k"
proof -
  assume "hasPrefix p k"
  then have "length (take (length p) k) = length p" by (simp add: hasPrefix_def)
  then show ?thesis by simp
qed

lemma iterate_deleteFrom:
  assumes "\<And>kv. kv \<in> set entries \<Longrightarrow> 8 \<le> length (fst kv)"
  shows "iterate (deleteFrom cutoff) entries d =
     (d\<lparr>kvs := filter (\<lambda>kv. \<not> (fst kv \<in> fst ` set entries
                                  \<and> cutoff \<le> trailingUint64 (fst kv))) (kvs d)\<rparr>,
      None)"
  using assms
proof (induction entries arbitrary: d)
  case Nil
  then show ?case by simp
next
  case (Cons e entries)
  obtain k v where e: "e = (k, v)" by (cases e)
  have len: "\<not> length k < 8" using Cons.prems [of e] e by simp
  have IH: "\<And>d'. iterate (deleteFrom cutoff) entries d' =
     (d'\<lparr>kvs := filter (\<lambda>kv. \<not> (fst kv \<in> fst ` set entries
                                  \<and> cutoff \<le> trailingUint64 (fst kv))) (kvs d')\<rparr>,
      None)"
    using Cons.IH Cons.prems by simp
  show ?case
  proof (cases "cutoff \<le> trailingUint64 k")
    case True
    have "iterate (deleteFrom cutoff) (e # entries) d =
        iterate (deleteFrom cutoff) entries (d\<lparr>kvs := AList.delete k (kvs d)\<rparr>)"
      using True len e by (simp add: deleteFrom_def db_Delete_def trailingUint64_def)
    also have "\<dots> = (d\<lparr>kvs := filter (\<lambda>kv. \<not> (fst kv \<in> fst ` set entries
                                  \<and> cutoff \<le> trailingUint64 (fst kv)))
                            (AList.delete k (kvs d))\<rparr>, None)"
      by (simp add: IH)
    also have "filter (\<lambda>kv. \<not> (fst kv \<in> fst ` set entries
                                  \<and> cutoff \<le> trailingUint64 (fst kv)))
                            (AList.delete k (kvs d))
        = filter (\<lambda>kv. \<not> (fst kv \<in> fst ` set (e # entries)
                                  \<and> cutoff \<le> trailingUint64 (fst kv))) (kvs d)"
      using True e by (auto simp: AList.delete_eq intro!: filter_cong)
    finally show ?thesis .
  next
    case False
    have "iterate (deleteFrom cutoff) (e # entries) d = iterate (deleteFrom cutoff) entries d"
      using False len e by (simp add: deleteFrom_def trailingUint64_def)
    also have "\<dots> = (d\<lparr>kvs := filter (\<lambda>kv. \<not> (fst kv \<in> fst ` set entries
                                  \<and> cutoff \<le> trailingUint64 (fst kv))) (kvs d)\<rparr>, None)"
      by (simp add: IH)
    also have "filter (\<lambda>kv. \<not> (fst kv \<in> fst ` set entries
                                  \<and> cutoff \<le> trailingUint64 (fst kv))) (kvs d)
        = filter (\<lambda>kv. \<not> (fst kv \<in> fst ` set (e # entries)
                                  \<and> cutoff \<le> trailingUint64 (fst kv))) (kvs d)"
      using False e by (auto intro!: filter_cong)
    finally show ?thesis .
  qed
qed

lemma db_PrefixedIterate_deleteFrom:
  assumes "8 \<le> length p"
  shows "db_PrefixedIterate d p None (deleteFrom cutoff) = (withoutFuture p cutoff d, None)"
proof -
  let ?entries = "sort_key fst (filter (\<lambda>kv. hasPrefix p (fst kv)) (kvs d))"
  have long: "\<And>kv. kv \<in> set ?entries \<Longrightarrow> 8 \<le> length (fst kv)"
    using assms hasPrefix_length by fastforce
  have "filter (\<lambda>kv. \<not> (fst kv \<in> fst ` set ?entries \<and> cutoff \<le> trailingUint64 (fst kv)))
          (kvs d)
      = filter (\<lambda>kv. \<not> (hasPrefix p (fst kv) \<and> cutoff \<le> trailingUint64 (fst kv))) (kvs d)"
    by (rule filter_cong) (auto simp: image_iff)
  then show ?thesis
    using iterate_deleteFrom [of ?entries cutoff d, OF long]
    by (simp add: db_PrefixedIterate_def withoutFuture_def)
qed

lemma withoutFuture_idem: "withoutFuture p cutoff (withoutFuture p cutoff d) = withoutFuture p cutoff d"
  by (simp add: withoutFuture_def)

lemma key_lengths: "8 \<le> length FinalizedTreeKey" "8 \<le> length WorkingTreeKey"
  by (simp_all add: FinalizedTreeKey_def WorkingTreeKey_def strBytes_def)

text \<open>
  Claim C9. Each rollback operation removes exactly the entries under its prefix whose
  trailing integer reaches the cutoff, and running it again with the same cutoff changes
  nothing.
\<close>

theorem DeleteFuture_idempotent:
  "DeleteFutureFinalizedTrees m k = (m\<lparr>db := withoutFuture FinalizedTreeKey k (db m)\<rparr>, None)
   \<and> DeleteFutureFinalizedTrees (fst (DeleteFutureFinalizedTrees m k)) k
       = (fst (DeleteFutureFinalizedTrees m k), None)
   \<and> DeleteFutureWorkingTrees m k = (m\<lparr>db := withoutFuture WorkingTreeKey k (db m)\<rparr>, None)
   \<and> DeleteFutureWorkingTrees (fst (DeleteFutureWorkingTrees m k)) k
       = (fst (DeleteFutureWorkingTrees m k), None)"
  by (simp add: DeleteFutureFinalizedTrees_def DeleteFutureWorkingTrees_def
      db_PrefixedIterate_deleteFrom key_lengths withoutFuture_idem)

section \<open>Padding and finalization\<close>

lemma Height_value:
  assumes "workingTree m = Some t"
  shows "Height m = Inr (if LeafCount t \<le> 1 then ucast (LeafCount t)
                         else of_nat (Len64 (LeafCount t - 1)))"
  using assms by (simp add: Height_def MustIntToUint8_Len64)

lemma Height_same_count:
  assumes "workingTree m = Some t" and "workingTree m' = Some t'"
    and "LeafCount t' = LeafCount t"
  shows "Height m' = Height m"
  using assms by (simp add: Height_def)

lemma insertRepeat_ok:
  "workingTree m = Some t \<Longrightarrow> LastSiblings t = Some ls \<Longrightarrow>
   \<exists>m' t' ls'. insertRepeat n m data = (m', None)
     \<and> workingTree m' = Some t' \<and> LastSiblings t' = Some ls'
     \<and> nodeGeneratorFn m' = nodeGeneratorFn m
     \<and> Index t' = Index t \<and> StartLeafIndex t' = StartLeafIndex t
     \<and> LeafCount t' = LeafCount t + of_nat n \<and> Done t' = Done t"
proof (induction n arbitrary: m t ls)
  case 0
  then show ?case by simp
next
  case (Suc n)
  obtain m1 t1 ls1 where ins: "InsertLeaf m data = (m1, None)"
    and wt1: "workingTree m1 = Some t1" and alloc1: "LastSiblings t1 = Some ls1"
    and gen: "nodeGeneratorFn m1 = nodeGeneratorFn m"
    and same: "Index t1 = Index t" "StartLeafIndex t1 = StartLeafIndex t"
      "LeafCount t1 = LeafCount t + 1" "Done t1 = Done t"
    using InsertLeaf_ok [OF Suc.prems, of data] by blast
  obtain m' t' ls' where "insertRepeat n m1 data = (m', None)"
    and "workingTree m' = Some t'" and "LastSiblings t' = Some ls'"
    and "nodeGeneratorFn m' = nodeGeneratorFn m1"
    and "Index t' = Index t1" "StartLeafIndex t' = StartLeafIndex t1"
      "LeafCount t' = LeafCount t1 + of_nat n" "Done t' = Done t1"
    using Suc.IH [OF wt1 alloc1] by blast
  then show ?case using ins gen same by simp
qed

lemma insertRepeat_nil:
  assumes "workingTree m = Some t" and "LastSiblings t = None" and "0 < n"
  shows "insertRepeat n m data =
     (m\<lparr>db := (db m)\<lparr>kvs := AList.update (PrefixedNodeKey (Index t) 0 (LeafCount t))
                                  data (kvs (db m))\<rparr>\<rparr>,
      Some (Panic ''assignment to entry in nil map''))"
proof -
  obtain k where "n = Suc k" using assms(3) by (cases n) auto
  then show ?thesis using InsertLeaf_nil [OF assms(1,2), of data] by simp
qed

lemma fillLeaves_ok:
  assumes wt: "workingTree m = Some t" and h: "Height m = Inr H"
    and alloc: "LastSiblings t \<noteq> None \<or> LeafCount t = push_bit (unat H) 1"
  shows "\<exists>m1 t1.
       insertRepeat (unat (push_bit (unat H) 1 - LeafCount t)) m (lastSibling t 0) = (m1, None)
     \<and> workingTree m1 = Some t1
     \<and> LeafCount t1 = push_bit (unat H) 1
     \<and> Index t1 = Index t \<and> StartLeafIndex t1 = StartLeafIndex t \<and> Done t1 = Done t
     \<and> (LastSiblings t \<noteq> None \<longrightarrow> LastSiblings t1 \<noteq> None)
     \<and> fillLeaves m = (m1\<lparr>workingTree := Some (t1\<lparr>LeafCount := LeafCount t\<rparr>)\<rparr>, None)"
proof -
  let ?rest = "push_bit (unat H) (1 :: uint64) - LeafCount t"
  have "\<exists>m1 t1. insertRepeat (unat ?rest) m (lastSibling t 0) = (m1, None)
      \<and> workingTree m1 = Some t1
      \<and> Index t1 = Index t \<and> StartLeafIndex t1 = StartLeafIndex t \<and> Done t1 = Done t
      \<and> (LastSiblings t \<noteq> None \<longrightarrow> LastSiblings t1 \<noteq> None)
      \<and> LeafCount t1 = LeafCount t + of_nat (unat ?rest)"
  proof (cases "LastSiblings t")
    case None
    with alloc have "?rest = 0" by simp
    then show ?thesis using wt by simp
  next
    case (Some ls)
    then show ?thesis
      using insertRepeat_ok [OF wt Some, of "unat ?rest" "lastSibling t 0"] by auto
  qed
  then obtain m1 t1 where rep: "insertRepeat (unat ?rest) m (lastSibling t 0) = (m1, None)"
    and wt1: "workingTree m1 = Some t1"
    and same: "Index t1 = Index t" "StartLeafIndex t1 = StartLeafIndex t" "Done t1 = Done t"
      "LastSiblings t \<noteq> None \<longrightarrow> LastSiblings t1 \<noteq> None"
    and cnt: "LeafCount t1 = LeafCount t + of_nat (unat ?rest)"
    by blast
  have cnt': "LeafCount t1 = push_bit (unat H) 1" using cnt by simp
  have "fillLeaves m = (m1\<lparr>workingTree := Some (t1\<lparr>LeafCount := LeafCount t\<rparr>)\<rparr>, None)"
  proof (cases "?rest = 0")
    case True
    then have "m1 = m" "t1 = t" using rep wt wt1 by simp_all
    then show ?thesis using wt h True by (simp add: fillLeaves_def)
  next
    case False
    have "LeafCount t1 - ?rest = LeafCount t" using cnt' by simp
    then show ?thesis using wt h False rep wt1 by (simp add: fillLeaves_def Let_def)
  qed
  then show ?thesis using rep wt1 cnt' same by blast
qed

lemma fillLeaves_nil:
  assumes wt: "workingTree m = Some t" and h: "Height m = Inr H"
    and nil: "LastSiblings t = None" and pad: "LeafCount t \<noteq> push_bit (unat H) 1"
  shows "fillLeaves m =
     (m\<lparr>db := (db m)\<lparr>kvs := AList.update (PrefixedNodeKey (Index t) 0 (LeafCount t))
                                  [] (kvs (db m))\<rparr>\<rparr>,
      Some (Panic ''assignment to entry in nil map''))"
proof -
  let ?rest = "push_bit (unat H) (1 :: uint64) - LeafCount t"
  have ne: "?rest \<noteq> 0" using pad by simp
  then have "0 < unat ?rest" by (simp add: unat_gt_0)
  then have "insertRepeat (unat ?rest) m (lastSibling t 0) =
     (m\<lparr>db := (db m)\<lparr>kvs := AList.update (PrefixedNodeKey (Index t) 0 (LeafCount t))
                                  (lastSibling t 0) (kvs (db m))\<rparr>\<rparr>,
      Some (Panic ''assignment to entry in nil map''))"
    by (rule insertRepeat_nil [OF wt nil])
  moreover have "lastSibling t 0 = []" using nil by (simp add: lastSibling_def)
  ultimately show ?thesis using wt h ne by (simp add: fillLeaves_def Let_def)
qed

text \<open>
  Claim C1, as amended. For a working tree with at least one leaf whose frontier map is
  allocated, or that needs no padding, and a codec whose marshalling succeeds,
  \<open>FinalizeWorkingTree\<close> pads with \<open>2 ^ H - LeafCount\<close> copies of the last leaf up to the
  padded count \<open>2 ^ H\<close>, where \<open>H\<close> is the height; it takes the root from \<open>LastSiblings[H]\<close>
  of the padded tree, and returns that root with a batch of exactly one entry: the
  finalized-tree key of the start index, and the serialized record. The record holds the
  height, the root, and the \<open>LeafCount\<close> from before the padding. For a tree with a nil map
  that needs padding, the first padding insertion panics at its assignment to the map,
  after writing its node.
\<close>

theorem FinalizeWorkingTree_nonempty:
  assumes wt: "workingTree m = Some t" and ne: "LeafCount t \<noteq> 0"
    and enc: "\<And>i. marshalFinalizedTreeInfo c i = Inr (enc i)"
  shows "\<exists>H. Height m = Inr H
     \<and> (LastSiblings t \<noteq> None \<or> LeafCount t = push_bit (unat H) 1 \<longrightarrow>
          (\<exists>m1 t1.
             insertRepeat (unat (push_bit (unat H) 1 - LeafCount t))
               (m\<lparr>workingTree := Some (t\<lparr>Done := True\<rparr>)\<rparr>) (lastSibling t 0) = (m1, None)
           \<and> workingTree m1 = Some t1
           \<and> LeafCount t1 = push_bit (unat H) 1
           \<and> FinalizeWorkingTree c m extraData =
               (m1\<lparr>workingTree := Some (t1\<lparr>LeafCount := LeafCount t\<rparr>)\<rparr>,
                Inr ([(db_PrefixedKey (db m1) (PrefixedFinalizedTreeKey (StartLeafIndex t)),
                       enc \<lparr>TreeIndex = Index t, TreeHeight = H, Root = lastSibling t1 H,
                            FStartLeafIndex = StartLeafIndex t, FLeafCount = LeafCount t,
                            ExtraData = extraData\<rparr>)],
                     lastSibling t1 H))))
     \<and> (LastSiblings t = None \<and> LeafCount t \<noteq> push_bit (unat H) 1 \<longrightarrow>
          FinalizeWorkingTree c m extraData =
            (m\<lparr>workingTree := Some (t\<lparr>Done := True\<rparr>),
               db := (db m)\<lparr>kvs := AList.update (PrefixedNodeKey (Index t) 0 (LeafCount t))
                                       [] (kvs (db m))\<rparr>\<rparr>,
             Inl (Panic ''assignment to entry in nil map'')))"
proof -
  let ?td = "t\<lparr>Done := True\<rparr>"
  let ?md = "m\<lparr>workingTree := Some ?td\<rparr>"
  obtain H where h: "Height m = Inr H" using Height_value [OF wt] by blast
  have wtd: "workingTree ?md = Some ?td" by simp
  have hd: "Height ?md = Inr H"
    using Height_same_count [OF wt wtd] h by simp
  have ls0: "lastSibling ?td 0 = lastSibling t 0" by (simp add: lastSibling_def)
  have A: "\<exists>m1 t1.
             insertRepeat (unat (push_bit (unat H) 1 - LeafCount t)) ?md (lastSibling t 0)
               = (m1, None)
           \<and> workingTree m1 = Some t1
           \<and> LeafCount t1 = push_bit (unat H) 1
           \<and> FinalizeWorkingTree c m extraData =
               (m1\<lparr>workingTree := Some (t1\<lparr>LeafCount := LeafCount t\<rparr>)\<rparr>,
                Inr ([(db_PrefixedKey (db m1) (PrefixedFinalizedTreeKey (StartLeafIndex t)),
                       enc \<lparr>TreeIndex = Index t, TreeHeight = H, Root = lastSibling t1 H,
                            FStartLeafIndex = StartLeafIndex t, FLeafCount = LeafCount t,
                            ExtraData = extraData\<rparr>)],
                     lastSibling t1 H))"
    if alloc: "LastSiblings t \<noteq> None \<or> LeafCount t = push_bit (unat H) 1"
  proof -
    have allocd: "LastSiblings ?td \<noteq> None \<or> LeafCount ?td = push_bit (unat H) 1"
      using alloc by simp
    obtain m1 t1 where
      rep: "insertRepeat (unat (push_bit (unat H) 1 - LeafCount ?td)) ?md (lastSibling ?td 0)
              = (m1, None)"
      and wt1: "workingTree m1 = Some t1"
      and cnt: "LeafCount t1 = push_bit (unat H) 1"
      and same: "Index t1 = Index ?td" "StartLeafIndex t1 = StartLeafIndex ?td"
      and fill: "fillLeaves ?md
          = (m1\<lparr>workingTree := Some (t1\<lparr>LeafCount := LeafCount ?td\<rparr>)\<rparr>, None)"
      using fillLeaves_ok [OF wtd hd allocd] by blast
    let ?t2 = "t1\<lparr>LeafCount := LeafCount t\<rparr>"
    let ?m2 = "m1\<lparr>workingTree := Some ?t2\<rparr>"
    have wt2: "workingTree ?m2 = Some ?t2" by simp
    have h2: "Height ?m2 = Inr H"
      using Height_same_count [OF wt wt2] h by simp
    have ls: "lastSibling ?t2 H = lastSibling t1 H"
      by (simp add: lastSibling_def)
    have "FinalizeWorkingTree c m extraData =
           (?m2,
            Inr ([(db_PrefixedKey (db m1) (PrefixedFinalizedTreeKey (StartLeafIndex t)),
                   enc \<lparr>TreeIndex = Index t, TreeHeight = H, Root = lastSibling t1 H,
                        FStartLeafIndex = StartLeafIndex t, FLeafCount = LeafCount t,
                        ExtraData = extraData\<rparr>)],
                 lastSibling t1 H))"
      using wt ne fill h2 same ls
      by (simp add: FinalizeWorkingTree_def Let_def enc FinalizedTreeInfo_Key_def)
    then show ?thesis using rep wt1 cnt ls0 by auto
  qed
  have B: "FinalizeWorkingTree c m extraData =
            (m\<lparr>workingTree := Some ?td,
               db := (db m)\<lparr>kvs := AList.update (PrefixedNodeKey (Index t) 0 (LeafCount t))
                                       [] (kvs (db m))\<rparr>\<rparr>,
             Inl (Panic ''assignment to entry in nil map''))"
    if nil: "LastSiblings t = None \<and> LeafCount t \<noteq> push_bit (unat H) 1"
  proof -
    have "fillLeaves ?md =
       (?md\<lparr>db := (db ?md)\<lparr>kvs := AList.update (PrefixedNodeKey (Index ?td) 0 (LeafCount ?td))
                                    [] (kvs (db ?md))\<rparr>\<rparr>,
        Some (Panic ''assignment to entry in nil map''))"
      using nil by (intro fillLeaves_nil [OF wtd hd]) simp_all
    then show ?thesis using wt ne by (simp add: FinalizeWorkingTree_def Let_def)
  qed
  from h A B show ?thesis by blast
qed


lemma threeLeafEngine_tree:
  "workingTree threeLeafEngine
     = Some \<lparr>Index = 1, StartLeafIndex = 1, LeafCount = 3,
              LastSiblings = Some [0 \<mapsto> [4], 1 \<mapsto> [3]], Done = False\<rparr>"
  by (simp add: threeLeafEngine_def engine_defs example_defs fun_upd_twist)

lemma nilMapEngine_tree:
  "workingTree nilMapEngine
     = Some \<lparr>Index = 1, StartLeafIndex = 1, LeafCount = 3, LastSiblings = None, Done = False\<rparr>"
  by (simp add: nilMapEngine_eval)

lemma fixedCodec_marshal:
  "marshalFinalizedTreeInfo fixedCodec i = Inr (finalizedTreeInfoBytes i)"
  by (simp add: fixedCodec_def encodeFinalizedTreeInfo_def)

theorem FinalizeWorkingTree_nonempty_witness:
  "(\<exists>m1 t1 H.
       Height threeLeafEngine = Inr H
     \<and> insertRepeat (unat (push_bit (unat H) 1 - 3 :: uint64))
           (threeLeafEngine\<lparr>workingTree :=
              Some \<lparr>Index = 1, StartLeafIndex = 1, LeafCount = 3,
                     LastSiblings = Some [0 \<mapsto> [4], 1 \<mapsto> [3]], Done = True\<rparr>\<rparr>) [4]
         = (m1, None)
     \<and> workingTree m1 = Some t1
     \<and> LeafCount t1 = push_bit (unat H) 1
     \<and> FinalizeWorkingTree fixedCodec threeLeafEngine [101] =
         (m1\<lparr>workingTree := Some (t1\<lparr>LeafCount := 3\<rparr>)\<rparr>,
          Inr ([(db_PrefixedKey (db m1) (PrefixedFinalizedTreeKey 1),
                 finalizedTreeInfoBytes
                   \<lparr>TreeIndex = 1, TreeHeight = H, Root = lastSibling t1 H,
                     FStartLeafIndex = 1, FLeafCount = 3, ExtraData = [101]\<rparr>)],
               lastSibling t1 H)))
   \<and> snd (FinalizeWorkingTree fixedCodec threeLeafEngine [101])
       = Inr ([(strBytes ''merkle/'' @ PrefixedFinalizedTreeKey 1,
                [0, 0, 0, 0, 0, 0, 0, 1, 2, 0, 0, 0, 0, 0, 0, 0, 1, 0, 0, 0, 0, 0, 0, 0, 3,
                 1, 3, 101])],
              [3])
   \<and> snd (FinalizeWorkingTree fixedCodec nilMapEngine [])
       = Inl (Panic ''assignment to entry in nil map'')
   \<and> workingTree (fst (FinalizeWorkingTree fixedCodec nilMapEngine []))
       = Some \<lparr>Index = 1, StartLeafIndex = 1, LeafCount = 3, LastSiblings = None,
                Done = True\<rparr>"
proof -
  let ?t = "\<lparr>Index = 1, StartLeafIndex = 1, LeafCount = 3,
              LastSiblings = Some [0 \<mapsto> [4], 1 \<mapsto> [3]], Done = False\<rparr>"
  let ?u = "\<lparr>Index = 1, StartLeafIndex = 1, LeafCount = 3, LastSiblings = None,
             Done = False\<rparr>"
  have ne: "LeafCount ?t \<noteq> 0" by simp
  have neu: "LeafCount ?u \<noteq> 0" by simp
  have ev: "snd (FinalizeWorkingTree fixedCodec threeLeafEngine [101])
       = Inr ([(strBytes ''merkle/'' @ PrefixedFinalizedTreeKey 1,
                [0, 0, 0, 0, 0, 0, 0, 1, 2, 0, 0, 0, 0, 0, 0, 0, 1, 0, 0, 0, 0, 0, 0, 0, 3,
                 1, 3, 101])],
              [3])"
    by (simp add: threeLeafEngine_def engine_defs example_defs insertRepeat_Suc_eval)
  have ex: "\<exists>m1 t1 H.
       Height threeLeafEngine = Inr H
     \<and> insertRepeat (unat (push_bit (unat H) 1 - 3 :: uint64))
           (threeLeafEngine\<lparr>workingTree :=
              Some \<lparr>Index = 1, StartLeafIndex = 1, LeafCount = 3,
                     LastSiblings = Some [0 \<mapsto> [4], 1 \<mapsto> [3]], Done = True\<rparr>\<rparr>) [4]
         = (m1, None)
     \<and> workingTree m1 = Some t1
     \<and> LeafCount t1 = push_bit (unat H) 1
     \<and> FinalizeWorkingTree fixedCodec threeLeafEngine [101] =
         (m1\<lparr>workingTree := Some (t1\<lparr>LeafCount := 3\<rparr>)\<rparr>,
          Inr ([(db_PrefixedKey (db m1) (PrefixedFinalizedTreeKey 1),
                 finalizedTreeInfoBytes
                   \<lparr>TreeIndex = 1, TreeHeight = H, Root = lastSibling t1 H,
                     FStartLeafIndex = 1, FLeafCount = 3, ExtraData = [101]\<rparr>)],
               lastSibling t1 H))"
    using FinalizeWorkingTree_nonempty
      [OF threeLeafEngine_tree ne fixedCodec_marshal, of "[101]"]
    by (simp add: lastSibling_def) blast
  have hu: "Height nilMapEngine = Inr 2"
    by (simp add: Height_def nilMapEngine_tree MustIntToUint8_def Len64_def bitlen_0
        bitlen_pos word_le_nat_alt)
  have "FinalizeWorkingTree fixedCodec nilMapEngine [] =
            (nilMapEngine\<lparr>workingTree := Some (?u\<lparr>Done := True\<rparr>),
               db := (db nilMapEngine)\<lparr>kvs :=
                 AList.update (PrefixedNodeKey (Index ?u) 0 (LeafCount ?u)) []
                   (kvs (db nilMapEngine))\<rparr>\<rparr>,
             Inl (Panic ''assignment to entry in nil map''))"
    using FinalizeWorkingTree_nonempty
      [OF nilMapEngine_tree neu fixedCodec_marshal, of "[]"] hu
    by simp
  then have nil: "snd (FinalizeWorkingTree fixedCodec nilMapEngine [])
       = Inl (Panic ''assignment to entry in nil map'')"
    "workingTree (fst (FinalizeWorkingTree fixedCodec nilMapEngine []))
       = Some \<lparr>Index = 1, StartLeafIndex = 1, LeafCount = 3, LastSiblings = None,
                Done = True\<rparr>"
    by simp_all
  from ex ev nil show ?thesis by blast
qed

text \<open>
  Claim C1, as stated, fails for a tree whose map is nil: a well-formed snapshot with three
  leaves and no frontier map loads without error, and finalizing the loaded tree panics
  in the padding.
\<close>

theorem FinalizeWorkingTree_nil_map_panics:
  "snd (LoadWorkingTree fixedCodec bareRecordEngine 7) = None
   \<and> map_option LeafCount (workingTree nilMapEngine) = Some 3
   \<and> snd (FinalizeWorkingTree fixedCodec nilMapEngine [])
       = Inl (Panic ''assignment to entry in nil map'')"
proof (intro conjI)
  show "snd (LoadWorkingTree fixedCodec bareRecordEngine 7) = None"
    by (rule nilMapEngine_eval)
  show "map_option LeafCount (workingTree nilMapEngine) = Some 3"
    by (simp add: nilMapEngine_tree)
  show "snd (FinalizeWorkingTree fixedCodec nilMapEngine [])
       = Inl (Panic ''assignment to entry in nil map'')"
    by (simp add: nilMapEngine_eval(1) bareRecordEngine_def engine_defs example_defs
        insertRepeat_Suc_eval)
qed


section \<open>Frontier size\<close>




















end
